theory Spec2Isabelle
  imports Complex_Main
begin

section \<open>Exceptions\<close>

text \<open>
  Python exception classes that the module names, raises or catches. A class that the
  module does not know is \<open>OtherClass\<close> with its name.
\<close>

datatype cls =
    InvalidElementStateException
  | NoSuchElementException
  | ElementNotVisibleException
  | ElementStillThereError
  | ValueError
  | WaitFailedError
  | DontRetryError
  | NavigationError
  | FrontEndError
  | TypeError
  | KeyError
  | AttributeError
  | LookupError
  | StandardError
  | WebDriverException
  | Exception
  | BaseException
  | OtherClass string

text \<open>
  An exception object: the method resolution order of its class (the class itself
  first, then its bases), its message, and the \<open>cause\<close> attribute that
  \<open>WaitFailedError\<close> and \<open>DontRetryError\<close> set. The class hierarchy of the
  browser driver's exceptions is not part of this module, so every exception value
  carries its own bases.
\<close>

datatype exc = Exc (exc_mro: "cls list") (exc_msg: string) (exc_cause: "exc option")

definition isinstance_exc :: "exc \<Rightarrow> cls \<Rightarrow> bool" where
  "isinstance_exc e c \<longleftrightarrow> c \<in> set (exc_mro e)"

text \<open>\<open>except classes:\<close> catches an exception that is an instance of one of the classes.\<close>

definition except_matches :: "exc \<Rightarrow> cls list \<Rightarrow> bool" where
  "except_matches e classes \<longleftrightarrow> list_ex (isinstance_exc e) classes"

definition element_exceptions :: "cls list" where
  "element_exceptions =
     [InvalidElementStateException,
      NoSuchElementException,
      ElementNotVisibleException,
      ElementStillThereError,
      ValueError]"

definition cant_see_exceptions :: "cls list" where
  "cant_see_exceptions =
     [NoSuchElementException,
      ElementNotVisibleException,
      NoSuchElementException,
      ValueError]"

text \<open>Instances of the classes defined in the module, and of the built-in ones it raises.\<close>

definition ElementStillThereError_new :: exc where
  "ElementStillThereError_new = Exc [ElementStillThereError, Exception, BaseException] [] None"

definition ValueError_new :: "string \<Rightarrow> exc" where
  "ValueError_new m = Exc [ValueError, StandardError, Exception, BaseException] m None"

definition TypeError_new :: "string \<Rightarrow> exc" where
  "TypeError_new m = Exc [TypeError, StandardError, Exception, BaseException] m None"

definition KeyError_new :: "string \<Rightarrow> exc" where
  "KeyError_new m = Exc [KeyError, LookupError, StandardError, Exception, BaseException] m None"

definition AttributeError_new :: "string \<Rightarrow> exc" where
  "AttributeError_new m = Exc [AttributeError, StandardError, Exception, BaseException] m None"

section \<open>Values, the world and the environment\<close>

text \<open>
  A locator strategy object (\<open>ByClause\<close>): whether it is an instance of the subclass
  \<open>NegativeByClause\<close>, the underlying by-type and the function that converts the
  search value.
\<close>

record clause =
  clause_negative :: bool
  clause_by :: string
  clause_convert :: "string \<Rightarrow> exc + string"

text \<open>
  A computation runs in a world \<open>'w\<close> (the browser session, the clock, whatever the
  wrapped operation touches); it returns the new world and either a value or the
  exception it raised.

  The Python values the module handles: \<open>None\<close>, a number, a string, a callable
  without arguments (the preparation hook), a callable on a search value, a locator
  strategy object, the browser (an instance of \<open>Remote\<close>; its state is in the world),
  and any other object, which is none of these and not callable.
\<close>

datatype ('w, 'a) pyval =
    PNone
  | PNum real
  | PStr string
  | PFun "'w \<Rightarrow> (exc + unit) \<times> 'w"
  | PConv "string \<Rightarrow> exc + string"
  | PClause clause
  | PBrowser
  | PObj 'a

type_synonym ('w, 'a) kwargs = "string \<Rightarrow> ('w, 'a) pyval option"

type_synonym ('w, 'a, 'r) operation =
  "('w, 'a) pyval list \<Rightarrow> ('w, 'a) kwargs \<Rightarrow> 'w \<Rightarrow> (exc + 'r) \<times> 'w"

text \<open>
  What the module takes from the standard library, the interpreter and the browser
  driver: \<open>time()\<close> reads the clock of the world; \<open>sleep(x)\<close> changes the world and may
  raise (on a negative or non-numeric argument); \<open>repr\<close> of an exception and of a
  value and \<open>str(type(x))\<close> give the texts put into messages;
  \<open>browser.find_element(value, by)\<close> and \<open>element.click()\<close> are the driver's.
  Times are real numbers: the code only adds a duration to a clock reading and compares
  clock readings.
\<close>

record ('w, 'a) env =
  env_time :: "'w \<Rightarrow> real"
  env_sleep :: "('w, 'a) pyval \<Rightarrow> 'w \<Rightarrow> (exc + unit) \<times> 'w"
  env_repr_exc :: "exc \<Rightarrow> string"
  env_repr_val :: "('w, 'a) pyval \<Rightarrow> string"
  env_type_str :: "('w, 'a) pyval \<Rightarrow> string"
  env_find_element :: "string \<Rightarrow> string \<Rightarrow> 'w \<Rightarrow> (exc + ('w, 'a) pyval) \<times> 'w"
  env_element_click :: "('w, 'a) pyval \<Rightarrow> 'w \<Rightarrow> (exc + ('w, 'a) pyval) \<times> 'w"

text \<open>
  \<open>WaitFailedError.__init__(message, cause)\<close> and \<open>DontRetryError.__init__\<close>: the message
  is \<open>"{}, caused by {}".format(message, repr(cause))\<close>, and the cause is kept.
\<close>

definition WaitFailedError_new :: "('w, 'a) env \<Rightarrow> string \<Rightarrow> exc \<Rightarrow> exc" where
  "WaitFailedError_new env message cause =
     Exc [WaitFailedError, Exception, BaseException]
         (message @ '', caused by '' @ env_repr_exc env cause) (Some cause)"

definition DontRetryError_new :: "('w, 'a) env \<Rightarrow> string \<Rightarrow> exc \<Rightarrow> exc" where
  "DontRetryError_new env message cause =
     Exc [DontRetryError, Exception, BaseException]
         (message @ '', caused by '' @ env_repr_exc env cause) (Some cause)"

section \<open>The trace of a decorated call\<close>

text \<open>
  The trace is the list of calls the wrapper made, in order: the hook, the wrapped
  operation with the arguments it received, and \<open>sleep\<close> with its argument.
\<close>

datatype ('w, 'a) event =
    EvPrep
  | EvCall "('w, 'a) pyval list" "('w, 'a) kwargs"
  | EvSleep "('w, 'a) pyval"

fun is_call :: "('w, 'a) event \<Rightarrow> bool" where
  "is_call (EvCall _ _) = True"
| "is_call _ = False"

fun is_prep :: "('w, 'a) event \<Rightarrow> bool" where
  "is_prep EvPrep = True"
| "is_prep _ = False"

fun is_sleep :: "('w, 'a) event \<Rightarrow> bool" where
  "is_sleep (EvSleep _) = True"
| "is_sleep _ = False"

definition count_calls :: "('w, 'a) event list \<Rightarrow> nat" where
  "count_calls tr = length (filter is_call tr)"

definition count_preps :: "('w, 'a) event list \<Rightarrow> nat" where
  "count_preps tr = length (filter is_prep tr)"

section \<open>The retry decorator\<close>

text \<open>\<open>kwargs.pop(key, default)\<close>: the value and the dictionary without the key.\<close>

definition pop :: "('w, 'a) kwargs \<Rightarrow> string \<Rightarrow> ('w, 'a) pyval \<Rightarrow> ('w, 'a) pyval \<times> ('w, 'a) kwargs" where
  "pop kwargs key dflt =
     (case kwargs key of
        None \<Rightarrow> (dflt, kwargs)
      | Some v \<Rightarrow> (v, kwargs(key := None)))"

text \<open>\<open>time() + retry_timeout\<close>: a \<open>TypeError\<close> of the interpreter unless it is a number.\<close>

definition py_add :: "real \<Rightarrow> ('w, 'a) pyval \<Rightarrow> exc + real" where
  "py_add t v =
     (case v of
        PNum x \<Rightarrow> Inr (t + x)
      | _ \<Rightarrow> Inl (TypeError_new ''unsupported operand type(s) for +''))"

text \<open>\<open>if prep is not None: prep()\<close>\<close>

definition run_prep :: "('w, 'a) pyval \<Rightarrow> 'w \<Rightarrow> (exc + unit) \<times> 'w \<times> ('w, 'a) event list" where
  "run_prep prep w =
     (case prep of
        PNone \<Rightarrow> (Inr (), w, [])
      | PFun h \<Rightarrow> (case h w of (r, w1) \<Rightarrow> (r, w1, [EvPrep]))
      | _ \<Rightarrow> (Inl (TypeError_new ''object is not callable''), w, []))"

text \<open>The body of the \<open>try\<close>: the hook, then \<open>f(*args, **kwargs)\<close>.\<close>

definition try_body ::
  "('w, 'a, 'r) operation \<Rightarrow> ('w, 'a) pyval list \<Rightarrow> ('w, 'a) kwargs \<Rightarrow> ('w, 'a) pyval \<Rightarrow> 'w \<Rightarrow>
   (exc + 'r) \<times> 'w \<times> ('w, 'a) event list" where
  "try_body f args kwargs prep w =
     (case run_prep prep w of
        (Inl e, w1, evs) \<Rightarrow> (Inl e, w1, evs)
      | (Inr _, w1, evs) \<Rightarrow>
          (case f args kwargs w1 of (r, w2) \<Rightarrow> (r, w2, evs @ [EvCall args kwargs])))"

text \<open>
  The \<open>while True\<close> loop, with fuel: the number of passes it may still make. Out of fuel
  the result is \<open>None\<close>: the loop is still running. The trace so far is carried along.
\<close>

fun retry_loop ::
  "nat \<Rightarrow> ('w, 'a) env \<Rightarrow> ('w, 'a, 'r) operation \<Rightarrow>
   ('w, 'a) pyval list \<Rightarrow> ('w, 'a) kwargs \<Rightarrow> ('w, 'a) pyval \<Rightarrow> ('w, 'a) pyval \<Rightarrow> real \<Rightarrow>
   'w \<Rightarrow> ('w, 'a) event list \<Rightarrow> (exc + 'r) option \<times> 'w \<times> ('w, 'a) event list" where
  "retry_loop 0 env f args kwargs prep retry_interval end_time w tr = (None, w, tr)"
| "retry_loop (Suc n) env f args kwargs prep retry_interval end_time w tr =
     (case try_body f args kwargs prep w of
        (Inr r, w1, evs) \<Rightarrow> (Some (Inr r), w1, tr @ evs)
      | (Inl e, w1, evs) \<Rightarrow>
          if except_matches e element_exceptions then
            if env_time env w1 > end_time then (Some (Inl e), w1, tr @ evs)
            else
              (case env_sleep env retry_interval w1 of
                 (Inl e', w2) \<Rightarrow> (Some (Inl e'), w2, tr @ evs @ [EvSleep retry_interval])
               | (Inr _, w2) \<Rightarrow>
                   retry_loop n env f args kwargs prep retry_interval end_time w2
                     (tr @ evs @ [EvSleep retry_interval]))
          else (Some (Inl e), w1, tr @ evs))"

text \<open>
  \<open>wrapper(*args, **kwargs)\<close>, for the wrapped \<open>f\<close> and the decorator's \<open>timeout\<close> and
  \<open>interval\<close>.
\<close>

definition wrapper ::
  "nat \<Rightarrow> ('w, 'a) env \<Rightarrow> ('w, 'a, 'r) operation \<Rightarrow> ('w, 'a) pyval \<Rightarrow> ('w, 'a) pyval \<Rightarrow>
   ('w, 'a) pyval list \<Rightarrow> ('w, 'a) kwargs \<Rightarrow>
   'w \<Rightarrow> (exc + 'r) option \<times> 'w \<times> ('w, 'a) event list" where
  "wrapper fuel env f timeout interval args kwargs w =
     (let (retry_timeout, kwargs1) = pop kwargs ''retry_timeout'' timeout;
          (retry_interval, kwargs2) = pop kwargs1 ''retry_interval'' interval;
          (prep, kwargs3) = pop kwargs2 ''prep'' PNone
      in (case py_add (env_time env w) retry_timeout of
            Inl e \<Rightarrow> (Some (Inl e), w, [])
          | Inr end_time \<Rightarrow>
              retry_loop fuel env f args kwargs3 prep retry_interval end_time w []))"

text \<open>
  \<open>retry(f, timeout, interval)\<close> is the wrapper; \<open>retry(timeout=..., interval=...)\<close>
  without \<open>f\<close> is \<open>rwrapper\<close>, which takes \<open>f\<close>. The defaults are 30 and 0.1.
\<close>

definition retry ::
  "nat \<Rightarrow> ('w, 'a) env \<Rightarrow> ('w, 'a, 'r) operation \<Rightarrow> ('w, 'a) pyval \<Rightarrow> ('w, 'a) pyval \<Rightarrow>
   ('w, 'a) pyval list \<Rightarrow> ('w, 'a) kwargs \<Rightarrow>
   'w \<Rightarrow> (exc + 'r) option \<times> 'w \<times> ('w, 'a) event list" where
  "retry fuel env f timeout interval = wrapper fuel env f timeout interval"

definition rwrapper ::
  "nat \<Rightarrow> ('w, 'a) env \<Rightarrow> ('w, 'a) pyval \<Rightarrow> ('w, 'a) pyval \<Rightarrow> ('w, 'a, 'r) operation \<Rightarrow>
   ('w, 'a) pyval list \<Rightarrow> ('w, 'a) kwargs \<Rightarrow>
   'w \<Rightarrow> (exc + 'r) option \<times> 'w \<times> ('w, 'a) event list" where
  "rwrapper fuel env timeout interval f = retry fuel env f timeout interval"

definition default_timeout :: "('w, 'a) pyval" where
  "default_timeout = PNum 30"

definition default_interval :: "('w, 'a) pyval" where
  "default_interval = PNum (1 / 10)"

section \<open>Describing a decorated call\<close>

text \<open>
  What the wrapper takes from the keyword arguments: the value under a key, or the
  default when the key is absent; and the keyword arguments that are left once the three
  reserved keys are gone.
\<close>

definition kw_get :: "('w, 'a) kwargs \<Rightarrow> string \<Rightarrow> ('w, 'a) pyval \<Rightarrow> ('w, 'a) pyval" where
  "kw_get kwargs key dflt = (case kwargs key of None \<Rightarrow> dflt | Some v \<Rightarrow> v)"

definition reserved :: "string list" where
  "reserved = [''retry_timeout'', ''retry_interval'', ''prep'']"

definition passed_kwargs :: "('w, 'a) kwargs \<Rightarrow> ('w, 'a) kwargs" where
  "passed_kwargs kwargs = (\<lambda>key. if key \<in> set reserved then None else kwargs key)"

text \<open>
  \<open>retried \<dots> k w wk evs\<close>: starting in the world \<open>w\<close>, the loop has made \<open>k\<close> passes
  and comes to pass \<open>k + 1\<close> in the world \<open>wk\<close>, having made the calls \<open>evs\<close>. The loop
  goes from one pass to the next exactly when the \<open>try\<close> body raised a failure that
  \<open>element_exceptions\<close> catches, the clock read after it was not past the deadline, and
  \<open>sleep\<close> returned.
\<close>

inductive retried ::
  "('w, 'a) env \<Rightarrow> ('w, 'a, 'r) operation \<Rightarrow> ('w, 'a) pyval list \<Rightarrow> ('w, 'a) kwargs \<Rightarrow>
   ('w, 'a) pyval \<Rightarrow> ('w, 'a) pyval \<Rightarrow> real \<Rightarrow> nat \<Rightarrow> 'w \<Rightarrow> 'w \<Rightarrow> ('w, 'a) event list \<Rightarrow> bool"
  for env f args kwargs prep retry_interval end_time where
  retried_0: "retried env f args kwargs prep retry_interval end_time 0 w w []"
| retried_Suc:
    "retried env f args kwargs prep retry_interval end_time k w w1 evs \<Longrightarrow>
     try_body f args kwargs prep w1 = (Inl e, w2, bevs) \<Longrightarrow>
     except_matches e element_exceptions \<Longrightarrow>
     env_time env w2 \<le> end_time \<Longrightarrow>
     env_sleep env retry_interval w2 = (Inr (), w3) \<Longrightarrow>
     retried env f args kwargs prep retry_interval end_time (Suc k) w w3
       (evs @ bevs @ [EvSleep retry_interval])"

text \<open>
  \<open>hook_precedes_calls tr\<close>: every invocation of the operation in the trace comes
  directly after a run of the hook, and no run of the hook serves two invocations.
  \<open>calls_prepared p tr\<close> scans the trace; \<open>p\<close> tells whether the event before was a
  run of the hook.
\<close>

fun calls_prepared :: "bool \<Rightarrow> ('w, 'a) event list \<Rightarrow> bool" where
  "calls_prepared p [] = True"
| "calls_prepared p (EvPrep # rest) = calls_prepared True rest"
| "calls_prepared p (EvCall a k # rest) = (p \<and> calls_prepared False rest)"
| "calls_prepared p (EvSleep v # rest) = calls_prepared False rest"

definition hook_precedes_calls :: "('w, 'a) event list \<Rightarrow> bool" where
  "hook_precedes_calls tr = calls_prepared False tr"

definition not_sleep :: "('w, 'a) event \<Rightarrow> bool" where
  "not_sleep ev \<longleftrightarrow> \<not> is_sleep ev"

section \<open>Contracts\<close>

text \<open>
  The classes that \<open>must_be\<close> is asked about, and \<open>isinstance\<close> on the values of the
  model. \<open>Remote\<close> is the driver's \<open>WebDriver\<close> class.
\<close>

datatype pytype = T_basestring | T_Number | T_NoneType | T_ByClause | T_Remote

fun isinstance_val :: "('w, 'a) pyval \<Rightarrow> pytype \<Rightarrow> bool" where
  "isinstance_val (PStr s) T_basestring = True"
| "isinstance_val (PNum x) T_Number = True"
| "isinstance_val PNone T_NoneType = True"
| "isinstance_val (PClause c) T_ByClause = True"
| "isinstance_val PBrowser T_Remote = True"
| "isinstance_val v t = False"

fun type_name :: "pytype \<Rightarrow> string" where
  "type_name T_basestring = ''basestring''"
| "type_name T_Number = ''Number''"
| "type_name T_NoneType = ''NoneType''"
| "type_name T_ByClause = ''ByClause''"
| "type_name T_Remote = ''WebDriver''"

fun join :: "string \<Rightarrow> string list \<Rightarrow> string" where
  "join sep [] = []"
| "join sep [x] = x"
| "join sep (x # y # rest) = x @ sep @ join sep (y # rest)"

text \<open>
  \<open>must_be(what, name, types)\<close>: \<open>True\<close>, or a \<open>ValueError\<close> that names the expected
  types and the type found.
\<close>

definition must_be :: "('w, 'a) env \<Rightarrow> ('w, 'a) pyval \<Rightarrow> string \<Rightarrow> pytype list \<Rightarrow> exc + bool" where
  "must_be env what name types =
     (if list_ex (isinstance_val what) types then Inr True
      else Inl (ValueError_new
             (name @ '' must be of types ('' @ join '', '' (map type_name types) @
              ''), is of type '' @ env_type_str env what)))"

section \<open>Locator strategies\<close>

text \<open>
  \<open>ByClause.__init__(self, by, f)\<close>; \<open>neg\<close> tells whether \<open>self\<close> is an instance of
  \<open>NegativeByClause\<close>. A callable that takes no search value is accepted by the
  \<open>hasattr(f, "__call__")\<close> check and fails when \<open>convert\<close> is called.
\<close>

definition ByClause_init ::
  "('w, 'a) env \<Rightarrow> bool \<Rightarrow> ('w, 'a) pyval \<Rightarrow> ('w, 'a) pyval \<Rightarrow> exc + ('w, 'a) pyval" where
  "ByClause_init env neg by_type f =
     (case must_be env by_type ''by'' [T_basestring] of
        Inl e \<Rightarrow> Inl e
      | Inr _ \<Rightarrow>
          (case (by_type, f) of
             (PStr s, PConv g) \<Rightarrow>
               Inr (PClause \<lparr>clause_negative = neg, clause_by = s, clause_convert = g\<rparr>)
           | (PStr s, PFun h) \<Rightarrow>
               Inr (PClause \<lparr>clause_negative = neg, clause_by = s,
                      clause_convert = (\<lambda>v. Inl (TypeError_new ''takes no arguments''))\<rparr>)
           | _ \<Rightarrow> Inl (ValueError_new ''f must be a callable'')))"

text \<open>\<open>NegativeByClause.__init__(self, base_by_clause)\<close>\<close>

definition NegativeByClause_init :: "('w, 'a) env \<Rightarrow> ('w, 'a) pyval \<Rightarrow> exc + ('w, 'a) pyval" where
  "NegativeByClause_init env base_by_clause =
     (case must_be env base_by_clause ''base_by_clause'' [T_ByClause] of
        Inl e \<Rightarrow> Inl e
      | Inr _ \<Rightarrow>
          (case base_by_clause of
             PClause c \<Rightarrow> ByClause_init env True (PStr (clause_by c)) (PConv (clause_convert c))
           | _ \<Rightarrow> Inl (AttributeError_new ''by'')))"

text \<open>
  \<open>ByClause.find(self, what, browser)\<close>: the contract, the conversion of the search
  value, and the driver's lookup; a \<open>NoSuchElementException\<close> gets the element and
  the by-type appended to its message and is raised again.
\<close>

definition ByClause_find ::
  "('w, 'a) env \<Rightarrow> clause \<Rightarrow> ('w, 'a) pyval \<Rightarrow> ('w, 'a) pyval \<Rightarrow> 'w \<Rightarrow>
   (exc + ('w, 'a) pyval) \<times> 'w" where
  "ByClause_find env self what browser w =
     (case must_be env what ''what'' [T_basestring] of
        Inl e \<Rightarrow> (Inl e, w)
      | Inr _ \<Rightarrow>
     (case must_be env browser ''browser'' [T_Remote] of
        Inl e \<Rightarrow> (Inl e, w)
      | Inr _ \<Rightarrow>
     (case what of
        PStr s \<Rightarrow>
          (case clause_convert self s of
             Inl e \<Rightarrow> (Inl e, w)
           | Inr what' \<Rightarrow>
               (case env_find_element env what' (clause_by self) w of
                  (Inr element, w1) \<Rightarrow> (Inr element, w1)
                | (Inl e, w1) \<Rightarrow>
                    if isinstance_exc e NoSuchElementException then
                      (Inl (Exc (exc_mro e)
                              (exc_msg e @ [CHR 0x0A] @ ''  (Element: ['' @ what' @
                                 ''], By: ['' @ clause_by self @ ''])'')
                              (exc_cause e)), w1)
                    else (Inl e, w1)))
      | _ \<Rightarrow> (Inl (TypeError_new ''convert''), w))))"

text \<open>The body of \<open>ByClause.wait(self, what, browser)\<close>, under its decorator.\<close>

definition ByClause_wait_body ::
  "('w, 'a) env \<Rightarrow> clause \<Rightarrow> ('w, 'a) pyval \<Rightarrow> ('w, 'a) pyval \<Rightarrow> 'w \<Rightarrow>
   (exc + ('w, 'a) pyval) \<times> 'w" where
  "ByClause_wait_body env self what browser w =
     (case must_be env what ''what'' [T_basestring] of
        Inl e \<Rightarrow> (Inl e, w)
      | Inr _ \<Rightarrow>
     (case must_be env browser ''browser'' [T_Remote] of
        Inl e \<Rightarrow> (Inl e, w)
      | Inr _ \<Rightarrow> ByClause_find env self what browser w))"

text \<open>
  The body of \<open>NegativeByClause.wait(self, what, browser)\<close>: \<open>find\<close> in a \<open>try\<close>;
  \<open>except cant_see_exceptions: return\<close>, \<open>else: raise ElementStillThereError\<close>.
\<close>

definition NegativeByClause_wait_body ::
  "('w, 'a) env \<Rightarrow> clause \<Rightarrow> ('w, 'a) pyval \<Rightarrow> ('w, 'a) pyval \<Rightarrow> 'w \<Rightarrow>
   (exc + ('w, 'a) pyval) \<times> 'w" where
  "NegativeByClause_wait_body env self what browser w =
     (case must_be env what ''what'' [T_basestring] of
        Inl e \<Rightarrow> (Inl e, w)
      | Inr _ \<Rightarrow>
     (case must_be env browser ''browser'' [T_Remote] of
        Inl e \<Rightarrow> (Inl e, w)
      | Inr _ \<Rightarrow>
     (case ByClause_find env self what browser w of
        (Inl e, w1) \<Rightarrow>
          if except_matches e cant_see_exceptions then (Inr PNone, w1) else (Inl e, w1)
      | (Inr element, w1) \<Rightarrow> (Inl ElementStillThereError_new, w1))))"

text \<open>
  The two methods as operations on \<open>(self, what, browser)\<close>, and decorated with
  \<open>@retry(timeout=5)\<close>. The module passes \<open>what\<close> and \<open>browser\<close> by position.
\<close>

definition ByClause_wait_op :: "('w, 'a) env \<Rightarrow> ('w, 'a, ('w, 'a) pyval) operation" where
  "ByClause_wait_op env args kwargs w =
     (case args of
        [PClause self, what, browser] \<Rightarrow> ByClause_wait_body env self what browser w
      | _ \<Rightarrow> (Inl (TypeError_new ''wait() takes exactly 3 arguments''), w))"

definition NegativeByClause_wait_op :: "('w, 'a) env \<Rightarrow> ('w, 'a, ('w, 'a) pyval) operation" where
  "NegativeByClause_wait_op env args kwargs w =
     (case args of
        [PClause self, what, browser] \<Rightarrow> NegativeByClause_wait_body env self what browser w
      | _ \<Rightarrow> (Inl (TypeError_new ''wait() takes exactly 3 arguments''), w))"

definition ByClause_wait ::
  "nat \<Rightarrow> ('w, 'a) env \<Rightarrow> ('w, 'a) pyval list \<Rightarrow> ('w, 'a) kwargs \<Rightarrow> 'w \<Rightarrow>
   (exc + ('w, 'a) pyval) option \<times> 'w \<times> ('w, 'a) event list" where
  "ByClause_wait fuel env = rwrapper fuel env (PNum 5) default_interval (ByClause_wait_op env)"

definition NegativeByClause_wait ::
  "nat \<Rightarrow> ('w, 'a) env \<Rightarrow> ('w, 'a) pyval list \<Rightarrow> ('w, 'a) kwargs \<Rightarrow> 'w \<Rightarrow>
   (exc + ('w, 'a) pyval) option \<times> 'w \<times> ('w, 'a) event list" where
  "NegativeByClause_wait fuel env =
     rwrapper fuel env (PNum 5) default_interval (NegativeByClause_wait_op env)"

section \<open>The locator registry\<close>

text \<open>
  \<open>ByDict\<close> is a \<open>dict\<close>: a map from keys to values, both any value. The prefix of the
  generated negative strategies is \<open>NOT_\<close>.
\<close>

type_synonym ('w, 'a) bydict = "('w, 'a) pyval \<Rightarrow> ('w, 'a) pyval option"

definition negative_prefix :: string where
  "negative_prefix = ''NOT_''"

definition startswith :: "string \<Rightarrow> string \<Rightarrow> bool" where
  "startswith s prefix \<longleftrightarrow> take (length prefix) s = prefix"

text \<open>\<open>dict.__getitem__\<close> and \<open>dict.__setitem__\<close>\<close>

definition dict_getitem ::
  "('w, 'a) env \<Rightarrow> ('w, 'a) bydict \<Rightarrow> ('w, 'a) pyval \<Rightarrow> exc + ('w, 'a) pyval" where
  "dict_getitem env d item =
     (case d item of None \<Rightarrow> Inl (KeyError_new (env_repr_val env item)) | Some v \<Rightarrow> Inr v)"

text \<open>\<open>ByDict.__getitem__(self, item)\<close>\<close>

function ByDict_getitem ::
  "('w, 'a) env \<Rightarrow> ('w, 'a) bydict \<Rightarrow> ('w, 'a) pyval \<Rightarrow> exc + ('w, 'a) pyval" where
  "ByDict_getitem env d item =
     (case item of
        PStr s \<Rightarrow>
          if startswith s negative_prefix then
            (case ByDict_getitem env d (PStr (drop (length negative_prefix) s)) of
               Inl e \<Rightarrow> Inl e
             | Inr base \<Rightarrow> NegativeByClause_init env base)
          else dict_getitem env d item
      | _ \<Rightarrow> dict_getitem env d item)"
  by pat_completeness auto
termination
  by (relation "measure (\<lambda>(env, d, item). case item of PStr s \<Rightarrow> length s | _ \<Rightarrow> 0)")
     (auto simp: startswith_def negative_prefix_def dest!: arg_cong[where f = length])

declare ByDict_getitem.simps [simp del]

text \<open>\<open>ByDict.__setitem__(self, key, value)\<close>: the new dictionary, or the \<open>ValueError\<close>.\<close>

definition ByDict_setitem ::
  "('w, 'a) env \<Rightarrow> ('w, 'a) bydict \<Rightarrow> ('w, 'a) pyval \<Rightarrow> ('w, 'a) pyval \<Rightarrow> exc + ('w, 'a) bydict" where
  "ByDict_setitem env d key val =
     (case key of
        PStr s \<Rightarrow>
          if startswith s negative_prefix then
            Inl (ValueError_new
                   (''Keys in this dict cannot start with '' @ [CHR 0x27] @ negative_prefix @ [CHR 0x27]))
          else Inr (d(key \<mapsto> val))
      | _ \<Rightarrow> Inr (d(key \<mapsto> val)))"

text \<open>
  \<open>__getattr__\<close>, which is called for a name that is no attribute of the object or of
  its class, and \<open>__setattr__\<close>, which is called for every attribute assignment, go
  through the two above, with the name as key.
\<close>

definition ByDict_getattr ::
  "('w, 'a) env \<Rightarrow> ('w, 'a) bydict \<Rightarrow> string \<Rightarrow> exc + ('w, 'a) pyval" where
  "ByDict_getattr env d item = ByDict_getitem env d (PStr item)"

definition ByDict_setattr ::
  "('w, 'a) env \<Rightarrow> ('w, 'a) bydict \<Rightarrow> string \<Rightarrow> ('w, 'a) pyval \<Rightarrow> exc + ('w, 'a) bydict" where
  "ByDict_setattr env d key val = ByDict_setitem env d (PStr key) val"

text \<open>
  \<open>ByDict\<close> overrides these four methods and no other. Among the methods it inherits
  from \<open>dict\<close>, three store entries without calling \<open>__setitem__\<close>: \<open>update\<close> with
  a list of pairs, \<open>setdefault\<close>, and the constructor with a list of pairs.
\<close>

definition dict_update ::
  "('w, 'a) bydict \<Rightarrow> (('w, 'a) pyval \<times> ('w, 'a) pyval) list \<Rightarrow> ('w, 'a) bydict" where
  "dict_update d pairs = fold (\<lambda>(key, val) m. m(key \<mapsto> val)) pairs d"

definition dict_setdefault ::
  "('w, 'a) bydict \<Rightarrow> ('w, 'a) pyval \<Rightarrow> ('w, 'a) pyval \<Rightarrow> ('w, 'a) pyval \<times> ('w, 'a) bydict" where
  "dict_setdefault d key dflt =
     (case d key of None \<Rightarrow> (dflt, d(key \<mapsto> dflt)) | Some v \<Rightarrow> (v, d))"

definition ByDict_new :: "(('w, 'a) pyval \<times> ('w, 'a) pyval) list \<Rightarrow> ('w, 'a) bydict" where
  "ByDict_new pairs = dict_update Map.empty pairs"

text \<open>
  The registries filled the way the module fills its own: the empty \<open>ByDict()\<close>, and a
  registry after an item assignment \<open>By[key] = value\<close> or an attribute assignment
  \<open>By.key = value\<close> that did not raise. A registry into which \<open>update\<close>,
  \<open>setdefault\<close> or the constructor has stored an entry is not described by this
  predicate.
\<close>

inductive filled_by_assignment :: "('w, 'a) env \<Rightarrow> ('w, 'a) bydict \<Rightarrow> bool" for env where
  filled_empty: "filled_by_assignment env Map.empty"
| filled_item: "filled_by_assignment env d \<Longrightarrow> ByDict_setitem env d key val = Inr d' \<Longrightarrow>
     filled_by_assignment env d'"
| filled_attr: "filled_by_assignment env d \<Longrightarrow> ByDict_setattr env d name val = Inr d' \<Longrightarrow>
     filled_by_assignment env d'"

section \<open>Clicking\<close>

text \<open>
  The body of \<open>Browser.click(self, what, by, hover_time, wait_for, wait_for_by)\<close>.
  \<open>hover_on\<close> stands for \<open>self.hover_on(element, hover_time)\<close> and \<open>wait\<close> for the call
  \<open>wait_for_by.wait(wait_for, self)\<close> of the decorated \<open>wait\<close> method; both are any
  computation that returns or raises.
\<close>

definition click_body ::
  "('w, 'a) env \<Rightarrow>
   (('w, 'a) pyval \<Rightarrow> ('w, 'a) pyval \<Rightarrow> 'w \<Rightarrow> (exc + unit) \<times> 'w) \<Rightarrow>
   (('w, 'a) pyval \<Rightarrow> ('w, 'a) pyval \<Rightarrow> 'w \<Rightarrow> (exc + ('w, 'a) pyval) \<times> 'w) \<Rightarrow>
   ('w, 'a) pyval \<Rightarrow> ('w, 'a) pyval \<Rightarrow> ('w, 'a) pyval \<Rightarrow> ('w, 'a) pyval \<Rightarrow> ('w, 'a) pyval \<Rightarrow>
   'w \<Rightarrow> (exc + ('w, 'a) pyval) \<times> 'w" where
  "click_body env hover_on wait what by_clause hover_time wait_for wait_for_by w =
     (case must_be env what ''element'' [T_basestring] of
        Inl e \<Rightarrow> (Inl e, w)
      | Inr _ \<Rightarrow>
     (case must_be env by_clause ''by'' [T_ByClause] of
        Inl e \<Rightarrow> (Inl e, w)
      | Inr _ \<Rightarrow>
     (case must_be env hover_time ''hover_time'' [T_Number] of
        Inl e \<Rightarrow> (Inl e, w)
      | Inr _ \<Rightarrow>
     (case must_be env wait_for ''wait_for'' [T_NoneType, T_basestring] of
        Inl e \<Rightarrow> (Inl e, w)
      | Inr _ \<Rightarrow>
     (case must_be env wait_for_by ''wait_for_by'' [T_NoneType, T_ByClause] of
        Inl e \<Rightarrow> (Inl e, w)
      | Inr _ \<Rightarrow>
     (case by_clause of
        PClause c \<Rightarrow>
          (case ByClause_find env c what PBrowser w of
             (Inl e, w1) \<Rightarrow> (Inl e, w1)
           | (Inr element, w1) \<Rightarrow>
          (case hover_on element hover_time w1 of
             (Inl e, w2) \<Rightarrow> (Inl e, w2)
           | (Inr _, w2) \<Rightarrow>
          (case env_element_click env element w2 of
             (Inl e, w3) \<Rightarrow> (Inl e, w3)
           | (Inr return_value, w3) \<Rightarrow>
               if wait_for \<noteq> PNone then
                 (case wait wait_for_by wait_for w3 of
                    (Inr _, w4) \<Rightarrow> (Inr return_value, w4)
                  | (Inl e, w4) \<Rightarrow>
                      if except_matches e cant_see_exceptions then
                        (Inl (WaitFailedError_new env ''Wait failed'' e), w4)
                      else if except_matches e element_exceptions then
                        (Inl (DontRetryError_new env ''Wait failed'' e), w4)
                      else (Inl e, w4))
               else (Inr return_value, w3))))
      | _ \<Rightarrow> (Inl (AttributeError_new ''find''), w)))))))"

text \<open>
  The defaults \<open>By.LINK_TEXT\<close> and \<open>By.ID\<close> of \<open>click\<close>, as the module builds them from
  the driver's constants: \<open>ByClause(value, lambda v: v)\<close>.
\<close>

definition By_LINK_TEXT :: "('w, 'a) pyval" where
  "By_LINK_TEXT = PClause \<lparr>clause_negative = False, clause_by = ''link text'', clause_convert = Inr\<rparr>"

definition By_ID :: "('w, 'a) pyval" where
  "By_ID = PClause \<lparr>clause_negative = False, clause_by = ''id'', clause_convert = Inr\<rparr>"

text \<open>
  \<open>click\<close> as an operation on \<open>(self, what)\<close> with the other parameters taken from the
  keyword arguments, and decorated with \<open>@retry(timeout=15)\<close>.
\<close>

definition click_op ::
  "('w, 'a) env \<Rightarrow>
   (('w, 'a) pyval \<Rightarrow> ('w, 'a) pyval \<Rightarrow> 'w \<Rightarrow> (exc + unit) \<times> 'w) \<Rightarrow>
   (('w, 'a) pyval \<Rightarrow> ('w, 'a) pyval \<Rightarrow> 'w \<Rightarrow> (exc + ('w, 'a) pyval) \<times> 'w) \<Rightarrow>
   ('w, 'a, ('w, 'a) pyval) operation" where
  "click_op env hover_on wait args kwargs w =
     (case args of
        [self, what] \<Rightarrow>
          click_body env hover_on wait what
            (kw_get kwargs ''by'' By_LINK_TEXT)
            (kw_get kwargs ''hover_time'' (PNum (1 / 10)))
            (kw_get kwargs ''wait_for'' PNone)
            (kw_get kwargs ''wait_for_by'' By_ID) w
      | _ \<Rightarrow> (Inl (TypeError_new ''click() takes at least 2 arguments''), w))"

definition click ::
  "nat \<Rightarrow> ('w, 'a) env \<Rightarrow>
   (('w, 'a) pyval \<Rightarrow> ('w, 'a) pyval \<Rightarrow> 'w \<Rightarrow> (exc + unit) \<times> 'w) \<Rightarrow>
   (('w, 'a) pyval \<Rightarrow> ('w, 'a) pyval \<Rightarrow> 'w \<Rightarrow> (exc + ('w, 'a) pyval) \<times> 'w) \<Rightarrow>
   ('w, 'a) pyval list \<Rightarrow> ('w, 'a) kwargs \<Rightarrow> 'w \<Rightarrow>
   (exc + ('w, 'a) pyval) option \<times> 'w \<times> ('w, 'a) event list" where
  "click fuel env hover_on wait =
     rwrapper fuel env (PNum 15) default_interval (click_op env hover_on wait)"

section \<open>A stub operation\<close>

text \<open>
  A world for concrete runs: the number of invocations of the operation so far, which
  the clock also reads (every invocation takes one second, \<open>sleep\<close> takes none).
  \<open>stub_op n\<close> raises a \<open>NoSuchElementException\<close> on its first \<open>n\<close> invocations and
  returns 42 afterwards. In the stub environment \<open>repr\<close> of an exception is its message,
  \<open>repr\<close> of a string is the string in quotes, and the driver finds no element.
\<close>

definition stub_transient :: exc where
  "stub_transient =
     Exc [NoSuchElementException, WebDriverException, Exception, BaseException]
         ''no such element'' None"

definition stub_type_str :: "(nat, unit) pyval \<Rightarrow> string" where
  "stub_type_str v =
     (case v of
        PStr s \<Rightarrow> ''<type '' @ [CHR 0x27] @ ''str'' @ [CHR 0x27] @ ''>''
      | PNone \<Rightarrow> ''<type '' @ [CHR 0x27] @ ''NoneType'' @ [CHR 0x27] @ ''>''
      | PNum x \<Rightarrow> ''<type '' @ [CHR 0x27] @ ''float'' @ [CHR 0x27] @ ''>''
      | _ \<Rightarrow> ''<type '' @ [CHR 0x27] @ ''object'' @ [CHR 0x27] @ ''>'')"

definition stub_repr_val :: "(nat, unit) pyval \<Rightarrow> string" where
  "stub_repr_val v =
     (case v of
        PStr s \<Rightarrow> [CHR 0x27] @ s @ [CHR 0x27]
      | PNone \<Rightarrow> ''None''
      | _ \<Rightarrow> ''<object>'')"

definition stub_env :: "(nat, unit) env" where
  "stub_env =
     \<lparr>env_time = real,
      env_sleep = (\<lambda>v w. (Inr (), w)),
      env_repr_exc = exc_msg,
      env_repr_val = stub_repr_val,
      env_type_str = stub_type_str,
      env_find_element = (\<lambda>v b w. (Inl stub_transient, w)),
      env_element_click = (\<lambda>el w. (Inr PNone, w))\<rparr>"

definition stub_op :: "nat \<Rightarrow> (nat, unit, nat) operation" where
  "stub_op n args kwargs w = (if w < n then (Inl stub_transient, Suc w) else (Inr 42, Suc w))"

definition no_kwargs :: "(nat, unit) kwargs" where
  "no_kwargs = Map.empty"

text \<open>
  A hook that raises a \<open>ValueError\<close> on its first run and returns afterwards (it
  advances the world as the operation does), and keyword arguments that supply it.
\<close>

definition stub_hook :: "nat \<Rightarrow> (exc + unit) \<times> nat" where
  "stub_hook w = (if w = 0 then (Inl (ValueError_new ''not ready''), Suc w) else (Inr (), Suc w))"

definition hook_kwargs :: "(nat, unit) kwargs" where
  "hook_kwargs = no_kwargs(''prep'' \<mapsto> PFun stub_hook)"

text \<open>
  A hook that returns on its first run (taking no time) and raises a \<open>ValueError\<close>
  on every later run, and keyword arguments that supply it.
\<close>

definition late_hook :: "nat \<Rightarrow> (exc + unit) \<times> nat" where
  "late_hook w = (if w = 0 then (Inr (), w) else (Inl (ValueError_new ''hook not ready''), Suc w))"

definition late_kwargs :: "(nat, unit) kwargs" where
  "late_kwargs = no_kwargs(''prep'' \<mapsto> PFun late_hook)"

text \<open>
  A failure that \<open>element_exceptions\<close> does not catch, and a stub that raises the
  transient failure on its first \<open>n\<close> invocations and this one afterwards.
\<close>

definition stub_fatal :: exc where
  "stub_fatal = Exc [WebDriverException, Exception, BaseException] ''session lost'' None"

definition fatal_op :: "nat \<Rightarrow> (nat, unit, nat) operation" where
  "fatal_op n args kwargs w = (if w < n then (Inl stub_transient, Suc w) else (Inl stub_fatal, Suc w))"

text \<open>A hook that always returns, and keyword arguments for concrete calls.\<close>

definition ok_hook :: "nat \<Rightarrow> (exc + unit) \<times> nat" where
  "ok_hook w = (Inr (), w)"

definition ok_hook_kwargs :: "(nat, unit) kwargs" where
  "ok_hook_kwargs = no_kwargs(''prep'' \<mapsto> PFun ok_hook)"

definition full_kwargs :: "(nat, unit) kwargs" where
  "full_kwargs = no_kwargs(''retry_timeout'' \<mapsto> PNum 1, ''retry_interval'' \<mapsto> PNum 2,
      ''prep'' \<mapsto> PFun ok_hook, ''hover_time'' \<mapsto> PNum 3)"

definition hover_kwargs :: "(nat, unit) kwargs" where
  "hover_kwargs = no_kwargs(''hover_time'' \<mapsto> PNum 3)"

definition override_kwargs :: "(nat, unit) kwargs" where
  "override_kwargs = no_kwargs(''retry_timeout'' \<mapsto> PNum 1, ''retry_interval'' \<mapsto> PNum 2)"

text \<open>
  For the locator strategies: an environment whose driver finds an element (the stub
  environment's driver raises \<open>NoSuchElementException\<close>), a failure of a wait and an
  operation that raises a \<open>WaitFailedError\<close> for it after \<open>n\<close> transient failures,
  the strategy \<open>By.ID\<close>, and
  registries: one holding \<open>None\<close> and a strategy, one holding a plain string as the
  module's first registry does, and one into which \<open>update\<close> has stored a strategy
  under \<open>NOT_ID\<close>.
\<close>

definition present_env :: "(nat, unit) env" where
  "present_env = stub_env\<lparr>env_find_element := (\<lambda>v b w. (Inr (PObj ()), w))\<rparr>"

definition cause_exc :: exc where
  "cause_exc = Exc [ElementNotVisibleException, InvalidElementStateException, WebDriverException,
                    Exception, BaseException] ''not visible'' None"

definition wait_failed_op :: "nat \<Rightarrow> (nat, unit, nat) operation" where
  "wait_failed_op n args kwargs w =
     (if w < n then (Inl stub_transient, Suc w)
      else (Inl (WaitFailedError_new stub_env ''Wait failed'' cause_exc), Suc w))"

definition id_clause :: clause where
  "id_clause = \<lparr>clause_negative = False, clause_by = ''id'', clause_convert = Inr\<rparr>"

definition empty_registry :: "(nat, unit) bydict" where
  "empty_registry = Map.empty"

definition example_registry :: "(nat, unit) bydict" where
  "example_registry = empty_registry(PNone \<mapsto> PNone, PStr ''ID'' \<mapsto> PClause id_clause)"

definition plain_registry :: "(nat, unit) bydict" where
  "plain_registry = empty_registry(PStr ''ID'' \<mapsto> PStr ''id'')"

definition unchecked_registry :: "(nat, unit) bydict" where
  "unchecked_registry = dict_update empty_registry [(PStr ''NOT_ID'', PClause id_clause)]"

section \<open>The loop, unrolled\<close>

lemma wrapper_unfold:
  "wrapper fuel env f timeout interval args kwargs w =
     (case py_add (env_time env w) (kw_get kwargs ''retry_timeout'' timeout) of
        Inl e \<Rightarrow> (Some (Inl e), w, [])
      | Inr end_time \<Rightarrow>
          retry_loop fuel env f args (passed_kwargs kwargs) (kw_get kwargs ''prep'' PNone)
            (kw_get kwargs ''retry_interval'' interval) end_time w [])"
proof -
  have kw: "snd (pop (snd (pop (snd (pop kwargs ''retry_timeout'' timeout)) ''retry_interval'' interval)) ''prep'' PNone)
        = passed_kwargs kwargs"
    by (rule ext) (auto simp: pop_def passed_kwargs_def reserved_def split: option.splits)
  have p: "fst (pop (snd (pop (snd (pop kwargs ''retry_timeout'' timeout)) ''retry_interval'' interval)) ''prep'' PNone)
        = kw_get kwargs ''prep'' PNone"
    by (auto simp: pop_def kw_get_def split: option.splits)
  have i: "fst (pop (snd (pop kwargs ''retry_timeout'' timeout)) ''retry_interval'' interval)
        = kw_get kwargs ''retry_interval'' interval"
    by (auto simp: pop_def kw_get_def split: option.splits)
  have t: "fst (pop kwargs ''retry_timeout'' timeout) = kw_get kwargs ''retry_timeout'' timeout"
    by (auto simp: pop_def kw_get_def split: option.splits)
  show ?thesis
    unfolding wrapper_def Let_def case_prod_beta kw p i t ..
qed

lemma run_prep_events:
  "run_prep prep w = (r, w1, pevs) \<Longrightarrow> pevs = [] \<or> pevs = [EvPrep]"
  by (auto simp: run_prep_def split: pyval.splits prod.splits)

lemma retry_loop_retried:
  "retried env f args kwargs prep retry_interval end_time k w wk evs \<Longrightarrow>
   retry_loop (k + n) env f args kwargs prep retry_interval end_time w tr =
   retry_loop n env f args kwargs prep retry_interval end_time wk (tr @ evs)"
proof (induction arbitrary: n tr rule: retried.induct)
  case (retried_0 w)
  show ?case by simp
next
  case (retried_Suc k w w1 evs e w2 bevs w3)
  have "retry_loop (Suc k + n) env f args kwargs prep retry_interval end_time w tr =
        retry_loop (k + Suc n) env f args kwargs prep retry_interval end_time w tr"
    by simp
  also have "\<dots> = retry_loop (Suc n) env f args kwargs prep retry_interval end_time w1 (tr @ evs)"
    by (rule retried_Suc.IH)
  also have "\<dots> = retry_loop n env f args kwargs prep retry_interval end_time w3
                      (tr @ evs @ bevs @ [EvSleep retry_interval])"
    using retried_Suc.hyps(2-5) by simp
  finally show ?case .
qed



lemma retry_last_attempt:
  assumes t: "kw_get kwargs ''retry_timeout'' timeout = PNum t"
      and r: "retried env f args (passed_kwargs kwargs) (kw_get kwargs ''prep'' PNone)
                (kw_get kwargs ''retry_interval'' interval) (env_time env w + t) k w wk evs"
      and fuel: "k < fuel"
  shows "retry fuel env f timeout interval args kwargs w =
         retry_loop (fuel - k) env f args (passed_kwargs kwargs) (kw_get kwargs ''prep'' PNone)
                (kw_get kwargs ''retry_interval'' interval) (env_time env w + t) wk evs"
proof -
  from fuel have "fuel = k + (fuel - k)" by simp
  then have "retry_loop fuel env f args (passed_kwargs kwargs) (kw_get kwargs ''prep'' PNone)
                (kw_get kwargs ''retry_interval'' interval) (env_time env w + t) w [] =
        retry_loop (fuel - k) env f args (passed_kwargs kwargs) (kw_get kwargs ''prep'' PNone)
                (kw_get kwargs ''retry_interval'' interval) (env_time env w + t) wk ([] @ evs)"
    using retry_loop_retried[OF r, of "fuel - k" "[]"] by simp
  then show ?thesis
    by (simp add: retry_def wrapper_unfold t py_add_def)
qed

lemma retry_pass_raises:
  assumes "kw_get kwargs ''retry_timeout'' timeout = PNum t"
      and "retried env f args (passed_kwargs kwargs) (kw_get kwargs ''prep'' PNone)
                (kw_get kwargs ''retry_interval'' interval) (env_time env w + t) k w wk evs"
      and "run_prep (kw_get kwargs ''prep'' PNone) wk = (Inr (), wp, pevs)"
      and "f args (passed_kwargs kwargs) wp = (Inl e, w')"
      and "\<not> except_matches e element_exceptions"
      and "k < fuel"
  shows "retry fuel env f timeout interval args kwargs w =
           (Some (Inl e), w', evs @ pevs @ [EvCall args (passed_kwargs kwargs)])"
proof -
  from assms(6) obtain m where m: "fuel - k = Suc m"
    by (cases "fuel - k") auto
  show ?thesis
    using assms(3-5) by (simp add: retry_last_attempt[OF assms(1,2,6)] m try_body_def)
qed

lemma concat_replicate_snoc: "concat (replicate k p) @ p = concat (replicate (Suc k) p)"
  by (induction k) simp_all

lemma retry_loop_trace_invariant:
  assumes step: "\<And>w tr r w1 evs. I tr \<Longrightarrow> try_body f args kwargs prep w = (r, w1, evs) \<Longrightarrow>
                   I (tr @ evs) \<and> I (tr @ evs @ [EvSleep iv])"
  shows "retry_loop fuel env f args kwargs prep iv end_time w tr = (res, w', tr') \<Longrightarrow> I tr \<Longrightarrow> I tr'"
proof (induction fuel arbitrary: w tr)
  case 0
  then show ?case by simp
next
  case (Suc fuel)
  obtain r w1 evs where tb: "try_body f args kwargs prep w = (r, w1, evs)"
    by (cases "try_body f args kwargs prep w") auto
  from step[OF Suc.prems(2) tb]
  have a1: "I (tr @ evs)" and a2: "I (tr @ evs @ [EvSleep iv])"
    by simp_all
  show ?case
  proof (cases r)
    case (Inr x)
    with Suc.prems(1) tb a1 show ?thesis by auto
  next
    case (Inl e)
    show ?thesis
    proof (cases "except_matches e element_exceptions \<and> \<not> env_time env w1 > end_time")
      case False
      with Suc.prems(1) tb Inl a1 show ?thesis by (auto split: if_splits)
    next
      case True
      obtain s w2 where sl: "env_sleep env iv w1 = (s, w2)"
        by (cases "env_sleep env iv w1") auto
      show ?thesis
      proof (cases s)
        case (Inl e')
        with Suc.prems(1) tb \<open>r = Inl e\<close> True sl a2 show ?thesis by auto
      next
        case (Inr u)
        with Suc.prems(1) tb \<open>r = Inl e\<close> True sl
        have "retry_loop fuel env f args kwargs prep iv end_time w2 (tr @ evs @ [EvSleep iv]) = (res, w', tr')"
          by auto
        from Suc.IH[OF this a2] show ?thesis .
      qed
    qed
  qed
qed

lemma retry_trace_invariant:
  assumes step: "\<And>w tr r w1 evs. I tr \<Longrightarrow>
        try_body f args (passed_kwargs kwargs) (kw_get kwargs ''prep'' PNone) w = (r, w1, evs) \<Longrightarrow>
        I (tr @ evs) \<and> I (tr @ evs @ [EvSleep (kw_get kwargs ''retry_interval'' interval)])"
      and run: "retry fuel env f timeout interval args kwargs w = (res, w', tr)"
      and init: "I []"
  shows "I tr"
proof (cases "py_add (env_time env w) (kw_get kwargs ''retry_timeout'' timeout)")
  case (Inl e)
  with run init show ?thesis by (simp add: retry_def wrapper_unfold)
next
  case (Inr end_time)
  with run have "retry_loop fuel env f args (passed_kwargs kwargs) (kw_get kwargs ''prep'' PNone)
            (kw_get kwargs ''retry_interval'' interval) end_time w [] = (res, w', tr)"
    by (simp add: retry_def wrapper_unfold)
  from retry_loop_trace_invariant[of I, OF step this init] show ?thesis by simp
qed

lemma calls_prepared_append:
  "calls_prepared p xs \<Longrightarrow> calls_prepared True ys \<Longrightarrow> calls_prepared p (xs @ EvPrep # ys)"
  by (induction p xs rule: calls_prepared.induct) auto

lemma calls_prepared_counts:
  "calls_prepared p tr \<Longrightarrow> count_calls tr \<le> count_preps tr + (if p then 1 else 0)"
  by (induction p tr rule: calls_prepared.induct) (auto simp: count_calls_def count_preps_def)

lemma try_body_hook_events:
  assumes "try_body f args kwargs (PFun h) w = (r, w1, evs)"
  shows "evs = [EvPrep] \<and> fst (h w) \<noteq> Inr () \<or> evs = [EvPrep, EvCall args kwargs]"
  using assms
  by (auto simp: try_body_def run_prep_def split: prod.splits sum.splits)

lemma try_body_call_events:
  assumes "try_body f args kwargs prep w = (r, w1, evs)"
  shows "\<forall>ev \<in> set evs. is_call ev \<longrightarrow> ev = EvCall args kwargs"
  using assms
  by (auto simp: try_body_def run_prep_def split: prod.splits sum.splits pyval.splits)

lemma paired_attempt:
  assumes "filter not_sleep tr = concat (replicate (count_calls tr) [EvPrep, EvCall args kwargs])"
  shows "filter not_sleep (tr @ [EvPrep, EvCall args kwargs]) =
         concat (replicate (count_calls (tr @ [EvPrep, EvCall args kwargs])) [EvPrep, EvCall args kwargs])"
  using assms concat_replicate_snoc[of "count_calls tr" "[EvPrep, EvCall args kwargs]"]
  by (simp add: count_calls_def not_sleep_def)

lemma prep_not_sleep: "(not_sleep x \<and> is_prep x) = is_prep x"
  by (cases x) (simp_all add: not_sleep_def)

lemma paired_counts:
  assumes p: "filter not_sleep tr = concat (replicate (count_calls tr) [EvPrep, EvCall args kwargs])"
  shows "count_preps tr = count_calls tr"
proof -
  have a: "count_preps tr = length (filter is_prep (filter not_sleep tr))"
    by (simp add: count_preps_def prep_not_sleep)
  have b: "length (filter is_prep (concat (replicate n [EvPrep, EvCall args kwargs]))) = n" for n
    by (induction n) simp_all
  show ?thesis unfolding a p by (rule b)
qed

lemma try_body_cong:
  "(\<And>w. g args kwargs w = f args kwargs w) \<Longrightarrow>
   try_body g args kwargs prep w = try_body f args kwargs prep w"
  by (auto simp: try_body_def split: prod.splits sum.splits)

lemma retry_loop_cong:
  assumes "\<And>w. g args kwargs w = f args kwargs w"
  shows "retry_loop fuel env g args kwargs prep iv end_time w tr =
         retry_loop fuel env f args kwargs prep iv end_time w tr"
proof (induction fuel arbitrary: w tr)
  case 0
  show ?case by simp
next
  case (Suc fuel)
  show ?case
    by (auto simp: try_body_cong[of g args kwargs f, OF assms] Suc.IH split: prod.splits sum.splits)
qed

lemma kw_get_upd_same: "kw_get (kwargs(key := None)) key d = d"
  by (simp add: kw_get_def)

lemma kw_get_upd_other: "key' \<noteq> key \<Longrightarrow> kw_get (kwargs(key := None)) key' d = kw_get kwargs key' d"
  by (simp add: kw_get_def)

lemma passed_kwargs_upd:
  "key \<in> set reserved \<Longrightarrow> passed_kwargs (kwargs(key := None)) = passed_kwargs kwargs"
  by (auto simp: passed_kwargs_def fun_eq_iff)

section \<open>Facts about the locator strategies\<close>

lemma startswith_prefix: "startswith (negative_prefix @ s) negative_prefix"
  by (simp add: startswith_def)

lemma ByDict_setitem_no_negative_key:
  "ByDict_setitem env d key val = Inr d' \<Longrightarrow> startswith s negative_prefix \<Longrightarrow>
   d (PStr s) = None \<Longrightarrow> d' (PStr s) = None"
  by (auto simp: ByDict_setitem_def split: pyval.splits if_splits)

lemma filled_no_negative_key:
  "filled_by_assignment env d \<Longrightarrow> startswith s negative_prefix \<Longrightarrow> d (PStr s) = None"
proof (induction rule: filled_by_assignment.induct)
  case filled_empty
  show ?case by simp
next
  case (filled_item d key val d')
  then show ?case
    by (simp add: ByDict_setitem_no_negative_key)
next
  case (filled_attr d name val d')
  then show ?case
    by (simp add: ByDict_setattr_def ByDict_setitem_no_negative_key)
qed

lemma NegativeByClause_init_clause:
  "NegativeByClause_init env (PClause c) = Inr (PClause (c\<lparr>clause_negative := True\<rparr>))"
  by (simp add: NegativeByClause_init_def ByClause_init_def must_be_def)

lemma cant_see_matches:
  "except_matches e cant_see_exceptions \<longleftrightarrow>
     isinstance_exc e NoSuchElementException \<or> isinstance_exc e ElementNotVisibleException \<or>
     isinstance_exc e ValueError"
  by (auto simp: except_matches_def cant_see_exceptions_def)

lemma ElementStillThereError_matches:
  "except_matches ElementStillThereError_new element_exceptions"
  by (simp add: ElementStillThereError_new_def except_matches_def isinstance_exc_def
      element_exceptions_def)

lemma wrapper_errors_not_transient:
  "\<not> except_matches (WaitFailedError_new env message cause) element_exceptions"
  "\<not> except_matches (DontRetryError_new env message cause) element_exceptions"
  by (simp_all add: WaitFailedError_new_def DontRetryError_new_def except_matches_def
      isinstance_exc_def element_exceptions_def)

lemma kw_get_empty: "kw_get (\<lambda>key. None) key d = d"
  by (simp add: kw_get_def)

lemma passed_empty: "passed_kwargs (\<lambda>key. None) = (\<lambda>key. None)"
  by (simp add: passed_kwargs_def)

lemma click_body_wait_fails:
  assumes "isinstance_val what T_basestring"
      and "isinstance_val hover_time T_Number"
      and "isinstance_val wait_for T_basestring"
      and "ByClause_find env c what PBrowser w = (Inr element, w1)"
      and "hover_on element hover_time w1 = (Inr (), w2)"
      and "env_element_click env element w2 = (Inr return_value, w3)"
      and "wait (PClause wc) wait_for w3 = (Inl e, w4)"
      and "except_matches e element_exceptions"
  shows "click_body env hover_on wait what (PClause c) hover_time wait_for (PClause wc) w =
           (Inl (if except_matches e cant_see_exceptions
                 then WaitFailedError_new env ''Wait failed'' e
                 else DontRetryError_new env ''Wait failed'' e), w4)"
proof -
  from assms(3) have "wait_for \<noteq> PNone"
    by (cases wait_for) simp_all
  then show ?thesis
    using assms by (simp add: click_body_def must_be_def)
qed

lemma kw_get_passed:
  "key \<notin> set reserved \<Longrightarrow> kw_get (passed_kwargs kwargs) key d = kw_get kwargs key d"
  by (simp add: kw_get_def passed_kwargs_def)

section \<open>Facts about the stub\<close>

lemma passed_no_kwargs: "passed_kwargs no_kwargs = no_kwargs"
  by (simp add: passed_kwargs_def no_kwargs_def fun_eq_iff)

lemma passed_hook_kwargs: "passed_kwargs hook_kwargs = no_kwargs"
  by (simp add: passed_kwargs_def hook_kwargs_def no_kwargs_def reserved_def fun_eq_iff)

lemma kw_get_no_kwargs: "kw_get no_kwargs key d = d"
  by (simp add: kw_get_def no_kwargs_def)

lemma stub_env_time: "env_time stub_env w = real w"
  by (simp add: stub_env_def)

lemma stub_env_sleep: "env_sleep stub_env v w = (Inr (), w)"
  by (simp add: stub_env_def)

lemma stub_transient_matches: "except_matches stub_transient element_exceptions"
  by (simp add: stub_transient_def except_matches_def isinstance_exc_def element_exceptions_def)

lemma flaky_retried:
  assumes flaky: "\<And>w. w < n \<Longrightarrow> op [] no_kwargs w = (Inl stub_transient, Suc w)"
  shows "k \<le> n \<Longrightarrow> real k \<le> x \<Longrightarrow>
   retried stub_env op [] no_kwargs PNone iv x k 0 k
     (concat (replicate k [EvCall [] no_kwargs, EvSleep iv]))"
proof (induction k)
  case 0
  show ?case by (simp add: retried_0)
next
  case (Suc k)
  then have IH: "retried stub_env op [] no_kwargs PNone iv x k 0 k
     (concat (replicate k [EvCall [] no_kwargs, EvSleep iv]))"
    by simp
  have "retried stub_env op [] no_kwargs PNone iv x (Suc k) 0 (Suc k)
     (concat (replicate k [EvCall [] no_kwargs, EvSleep iv]) @ [EvCall [] no_kwargs] @ [EvSleep iv])"
  proof (rule retried_Suc[OF IH])
    show "try_body op [] no_kwargs PNone k = (Inl stub_transient, Suc k, [EvCall [] no_kwargs])"
      using Suc.prems flaky[of k] by (simp add: try_body_def run_prep_def)
    show "except_matches stub_transient element_exceptions" by (rule stub_transient_matches)
    show "env_time stub_env (Suc k) \<le> x" using Suc.prems by (simp add: stub_env_time)
    show "env_sleep stub_env iv (Suc k) = (Inr (), Suc k)" by (simp add: stub_env_sleep)
  qed
  then show ?case
    using concat_replicate_snoc[of k "[EvCall [] no_kwargs, EvSleep iv]"] by simp
qed

lemma stub_retried:
  "k \<le> n \<Longrightarrow> real k \<le> x \<Longrightarrow>
   retried stub_env (stub_op n) [] no_kwargs PNone iv x k 0 k
     (concat (replicate k [EvCall [] no_kwargs, EvSleep iv]))"
  by (rule flaky_retried) (simp_all add: stub_op_def)

lemma stub_fatal_no_match: "\<not> except_matches stub_fatal element_exceptions"
  by (simp add: stub_fatal_def except_matches_def isinstance_exc_def element_exceptions_def)

lemma fatal_retried:
  "k \<le> n \<Longrightarrow> real k \<le> x \<Longrightarrow>
   retried stub_env (fatal_op n) [] no_kwargs PNone iv x k 0 k
     (concat (replicate k [EvCall [] no_kwargs, EvSleep iv]))"
  by (rule flaky_retried) (simp_all add: fatal_op_def)

lemma wait_failed_retried:
  "k \<le> n \<Longrightarrow> real k \<le> x \<Longrightarrow>
   retried stub_env (wait_failed_op n) [] no_kwargs PNone iv x k 0 k
     (concat (replicate k [EvCall [] no_kwargs, EvSleep iv]))"
  by (rule flaky_retried) (simp_all add: wait_failed_op_def)

lemma passed_ok_hook_kwargs: "passed_kwargs ok_hook_kwargs = no_kwargs"
  by (simp add: passed_kwargs_def ok_hook_kwargs_def no_kwargs_def reserved_def fun_eq_iff)

lemma kw_get_ok_hook_kwargs:
  "kw_get ok_hook_kwargs ''prep'' d = PFun ok_hook"
  "kw_get ok_hook_kwargs ''retry_timeout'' d = d"
  "kw_get ok_hook_kwargs ''retry_interval'' d = d"
  by (simp_all add: kw_get_def ok_hook_kwargs_def no_kwargs_def)

lemma kw_get_hook_kwargs:
  "kw_get hook_kwargs ''prep'' d = PFun stub_hook"
  "kw_get hook_kwargs ''retry_timeout'' d = d"
  "kw_get hook_kwargs ''retry_interval'' d = d"
  by (simp_all add: kw_get_def hook_kwargs_def no_kwargs_def)

lemma ValueError_matches: "except_matches (ValueError_new m) element_exceptions"
  by (simp add: ValueError_new_def except_matches_def isinstance_exc_def element_exceptions_def)

lemma passed_late_kwargs: "passed_kwargs late_kwargs = no_kwargs"
  by (simp add: passed_kwargs_def late_kwargs_def no_kwargs_def reserved_def fun_eq_iff)

lemma kw_get_late_kwargs:
  "kw_get late_kwargs ''prep'' d = PFun late_hook"
  "kw_get late_kwargs ''retry_timeout'' d = d"
  "kw_get late_kwargs ''retry_interval'' d = d"
  by (simp_all add: kw_get_def late_kwargs_def no_kwargs_def)

lemma stub_env_repr_val: "env_repr_val stub_env v = stub_repr_val v"
  by (simp add: stub_env_def)

lemma kw_get_override_kwargs:
  "kw_get override_kwargs ''retry_timeout'' d = PNum 1"
  "kw_get override_kwargs ''retry_interval'' d = PNum 2"
  "kw_get override_kwargs ''prep'' d = d"
  by (simp_all add: kw_get_def override_kwargs_def no_kwargs_def)

lemma passed_override_kwargs: "passed_kwargs override_kwargs = no_kwargs"
  by (simp add: passed_kwargs_def override_kwargs_def no_kwargs_def reserved_def fun_eq_iff)

lemma passed_full_kwargs: "passed_kwargs full_kwargs = hover_kwargs"
  by (simp add: passed_kwargs_def full_kwargs_def hover_kwargs_def no_kwargs_def reserved_def fun_eq_iff)

lemma kw_get_full_kwargs:
  "kw_get full_kwargs ''prep'' d = PFun ok_hook"
  "kw_get full_kwargs ''retry_timeout'' d = PNum 1"
  "kw_get full_kwargs ''retry_interval'' d = PNum 2"
  by (simp_all add: kw_get_def full_kwargs_def no_kwargs_def)

lemma stub_env_type_str: "env_type_str stub_env v = stub_type_str v"
  by (simp add: stub_env_def)

lemma example_registry_built: "filled_by_assignment stub_env example_registry"
proof -
  have r0: "filled_by_assignment stub_env empty_registry"
    unfolding empty_registry_def by (rule filled_empty)
  have s1: "ByDict_setitem stub_env empty_registry PNone PNone = Inr (empty_registry(PNone \<mapsto> PNone))"
    by (simp add: ByDict_setitem_def)
  have s2: "ByDict_setitem stub_env (empty_registry(PNone \<mapsto> PNone)) (PStr ''ID'') (PClause id_clause) =
            Inr example_registry"
    by (simp add: ByDict_setitem_def startswith_def negative_prefix_def example_registry_def)
  show ?thesis
    by (rule filled_item[OF filled_item[OF r0 s1] s2])
qed

section \<open>Success after transient failures\<close>




section \<open>Failure at the deadline\<close>

text \<open>
  Claim C2, amended. If every pass of the loop raises a failure that
  \<open>element_exceptions\<close> catches, the loop has come to its pass \<open>k + 1\<close>, and the clock
  read after the failure of this pass is past the deadline (the time at the start of the
  call plus the timeout), then the decorated call raises the very exception value that
  was raised in this last pass (same class, message and cause): no other error is made
  up. When the hook returned in this pass (or there is none), it is the failure raised
  by the last invocation of the operation; when the hook raised, it is the failure of
  the hook, and the operation was not invoked in this pass.
\<close>

theorem retry_raises_last_failure_after_deadline:
  assumes "kw_get kwargs ''retry_timeout'' timeout = PNum t"
      and "retried env f args (passed_kwargs kwargs) (kw_get kwargs ''prep'' PNone)
                (kw_get kwargs ''retry_interval'' interval) (env_time env w + t) k w wk evs"
      and "try_body f args (passed_kwargs kwargs) (kw_get kwargs ''prep'' PNone) wk = (Inl e, w', bevs)"
      and "except_matches e element_exceptions"
      and "env_time env w' > env_time env w + t"
      and "k < fuel"
  shows "retry fuel env f timeout interval args kwargs w = (Some (Inl e), w', evs @ bevs) \<and>
         (run_prep (kw_get kwargs ''prep'' PNone) wk = (Inr (), wp, pevs) \<longrightarrow>
            f args (passed_kwargs kwargs) wp = (Inl e, w') \<and>
            bevs = pevs @ [EvCall args (passed_kwargs kwargs)]) \<and>
         (run_prep (kw_get kwargs ''prep'' PNone) wk = (Inl eh, wh, hevs) \<longrightarrow>
            eh = e \<and> wh = w' \<and> bevs = hevs \<and> count_calls bevs = 0)"
proof -
  from assms(6) obtain m where m: "fuel - k = Suc m"
    by (cases "fuel - k") auto
  have raised: "retry fuel env f timeout interval args kwargs w = (Some (Inl e), w', evs @ bevs)"
    using assms(3-5) by (simp add: retry_last_attempt[OF assms(1,2,6)] m)
  have invoked: "f args (passed_kwargs kwargs) wp = (Inl e, w') \<and>
            bevs = pevs @ [EvCall args (passed_kwargs kwargs)]"
    if "run_prep (kw_get kwargs ''prep'' PNone) wk = (Inr (), wp, pevs)"
    using assms(3) that by (auto simp: try_body_def split: prod.splits)
  have hook: "eh = e \<and> wh = w' \<and> bevs = hevs \<and> count_calls bevs = 0"
    if "run_prep (kw_get kwargs ''prep'' PNone) wk = (Inl eh, wh, hevs)"
    using assms(3) that run_prep_events[OF that]
    by (auto simp: try_body_def count_calls_def)
  show ?thesis
    using raised invoked hook by blast
qed

text \<open>
  The stub that keeps failing, under a timeout of two seconds and without a hook: the
  third invocation ends after the deadline and its failure is the one raised. And the
  stub that fails once, under a timeout of one second and with the hook that raises on
  its second run: that run ends after the deadline and the failure of the hook is the
  one raised.
\<close>

theorem retry_raises_last_failure_after_deadline_witness:
  "retry 10 stub_env (stub_op 5) (PNum 2) default_interval [] no_kwargs 0 =
     (Some (Inl stub_transient), 3,
      [EvCall [] no_kwargs, EvSleep default_interval,
       EvCall [] no_kwargs, EvSleep default_interval,
       EvCall [] no_kwargs]) \<and>
   stub_op 5 [] no_kwargs 2 = (Inl stub_transient, 3) \<and>
   retry 5 stub_env (stub_op 1) (PNum 1) default_interval [] late_kwargs 0 =
     (Some (Inl (ValueError_new ''hook not ready'')), 2,
      [EvPrep, EvCall [] no_kwargs, EvSleep default_interval, EvPrep]) \<and>
   late_hook 1 = (Inl (ValueError_new ''hook not ready''), 2) \<and>
   count_calls [EvPrep :: (nat, unit) event] = 0"
proof -
  have h1: "kw_get no_kwargs ''retry_timeout'' (PNum 2) = PNum 2"
    by (simp add: kw_get_no_kwargs)
  have h2: "retried stub_env (stub_op 5) [] (passed_kwargs no_kwargs) (kw_get no_kwargs ''prep'' PNone)
              (kw_get no_kwargs ''retry_interval'' default_interval) (env_time stub_env 0 + 2) 2 0 2
              (concat (replicate 2 [EvCall [] no_kwargs, EvSleep default_interval]))"
    using stub_retried[of 2 5 2 default_interval]
    by (simp add: passed_no_kwargs kw_get_no_kwargs stub_env_time)
  have h3: "try_body (stub_op 5) [] (passed_kwargs no_kwargs) (kw_get no_kwargs ''prep'' PNone) 2 =
              (Inl stub_transient, 3, [EvCall [] no_kwargs])"
    by (simp add: kw_get_no_kwargs passed_no_kwargs try_body_def run_prep_def stub_op_def)
  have h6: "env_time stub_env 3 > env_time stub_env 0 + 2"
    by (simp add: stub_env_time)
  have h7: "(2::nat) < 10" by simp
  have p1: "run_prep (kw_get no_kwargs ''prep'' PNone) (2::nat) = (Inr (), 2, [])"
    by (simp add: kw_get_no_kwargs run_prep_def)
  note first = retry_raises_last_failure_after_deadline[OF h1 h2 h3 stub_transient_matches h6 h7,
      where wp = 2 and pevs = "[]"]
  have a: "retry 10 stub_env (stub_op 5) (PNum 2) default_interval [] no_kwargs 0 =
     (Some (Inl stub_transient), 3,
      [EvCall [] no_kwargs, EvSleep default_interval,
       EvCall [] no_kwargs, EvSleep default_interval,
       EvCall [] no_kwargs])"
    using first[THEN conjunct1] by (simp add: eval_nat_numeral)
  have b: "stub_op 5 [] no_kwargs 2 = (Inl stub_transient, 3)"
    using first[THEN conjunct2, THEN conjunct1] p1 by (simp add: passed_no_kwargs)
  have g1: "kw_get late_kwargs ''retry_timeout'' (PNum 1) = PNum 1"
    by (simp add: kw_get_late_kwargs)
  have g2: "retried stub_env (stub_op 1) [] (passed_kwargs late_kwargs) (kw_get late_kwargs ''prep'' PNone)
              (kw_get late_kwargs ''retry_interval'' default_interval) (env_time stub_env 0 + 1) (Suc 0) 0 1
              ([] @ [EvPrep, EvCall [] no_kwargs] @ [EvSleep default_interval])"
    unfolding passed_late_kwargs kw_get_late_kwargs
  proof (rule retried_Suc[OF retried_0])
    show "try_body (stub_op 1) [] no_kwargs (PFun late_hook) 0 =
            (Inl stub_transient, 1, [EvPrep, EvCall [] no_kwargs])"
      by (simp add: try_body_def run_prep_def late_hook_def stub_op_def)
    show "except_matches stub_transient element_exceptions" by (rule stub_transient_matches)
    show "env_time stub_env 1 \<le> env_time stub_env 0 + 1" by (simp add: stub_env_time)
    show "env_sleep stub_env default_interval 1 = (Inr (), 1)" by (simp add: stub_env_sleep)
  qed
  have g3: "try_body (stub_op 1) [] (passed_kwargs late_kwargs) (kw_get late_kwargs ''prep'' PNone) 1 =
              (Inl (ValueError_new ''hook not ready''), 2, [EvPrep])"
    by (simp add: kw_get_late_kwargs passed_late_kwargs try_body_def run_prep_def late_hook_def)
  have g5: "env_time stub_env 2 > env_time stub_env 0 + 1"
    by (simp add: stub_env_time)
  have g6: "Suc 0 < 5" by simp
  have p2: "run_prep (kw_get late_kwargs ''prep'' PNone) (1::nat) =
              (Inl (ValueError_new ''hook not ready''), 2, [EvPrep])"
    by (simp add: kw_get_late_kwargs run_prep_def late_hook_def)
  note second = retry_raises_last_failure_after_deadline[OF g1 g2 g3 ValueError_matches g5 g6,
      where eh = "ValueError_new ''hook not ready''" and wh = 2 and hevs = "[EvPrep]"]
  have c: "retry 5 stub_env (stub_op 1) (PNum 1) default_interval [] late_kwargs 0 =
     (Some (Inl (ValueError_new ''hook not ready'')), 2,
      [EvPrep, EvCall [] no_kwargs, EvSleep default_interval, EvPrep])"
    using second[THEN conjunct1] by simp
  have d: "count_calls [EvPrep :: (nat, unit) event] = 0"
    using second[THEN conjunct2, THEN conjunct2] p2 by simp
  have e: "late_hook 1 = (Inl (ValueError_new ''hook not ready''), 2)"
    by (simp add: late_hook_def)
  show ?thesis
    using a b c d e by simp
qed

text \<open>
  A call with a hook in which the failure raised is not the one of the last invocation.
  The stub fails once, with a \<open>NoSuchElementException\<close>, which \<open>element_exceptions\<close>
  catches; the loop sleeps and runs the hook again, which now raises a \<open>ValueError\<close>,
  and the clock is past the deadline of one second. The operation has been invoked once,
  every invocation of it has raised a transient failure, and the decorated call raises
  the \<open>ValueError\<close> of the hook, not the failure of that invocation.
\<close>

theorem retry_raises_hook_failure_after_deadline:
  "retry 5 stub_env (stub_op 1) (PNum 1) default_interval [] late_kwargs 0 =
     (Some (Inl (ValueError_new ''hook not ready'')), 2,
      [EvPrep, EvCall [] no_kwargs, EvSleep default_interval, EvPrep]) \<and>
   count_calls [EvPrep, EvCall [] no_kwargs, EvSleep default_interval, EvPrep] = 1 \<and>
   stub_op 1 [] no_kwargs 0 = (Inl stub_transient, 1) \<and>
   except_matches stub_transient element_exceptions \<and>
   env_time stub_env 2 > env_time stub_env 0 + 1 \<and>
   ValueError_new ''hook not ready'' \<noteq> stub_transient"
proof -
  have "retry 5 stub_env (stub_op 1) (PNum 1) default_interval [] late_kwargs 0 =
     (Some (Inl (ValueError_new ''hook not ready'')), 2,
      [EvPrep, EvCall [] no_kwargs, EvSleep default_interval, EvPrep])"
    by (simp add: retry_def wrapper_unfold kw_get_late_kwargs passed_late_kwargs
        py_add_def eval_nat_numeral try_body_def run_prep_def late_hook_def stub_op_def
        stub_env_time stub_env_sleep stub_transient_matches ValueError_matches)
  moreover have "ValueError_new ''hook not ready'' \<noteq> stub_transient"
    by (simp add: ValueError_new_def stub_transient_def)
  ultimately show ?thesis
    by (simp add: stub_op_def stub_transient_matches stub_env_time count_calls_def)
qed

section \<open>Failures that are not transient\<close>

text \<open>
  Claim C3. If an invocation of the wrapped operation, in whatever pass \<open>k + 1\<close> the
  loop has come to, raises a failure that \<open>element_exceptions\<close> does not catch, the
  decorated call raises that failure at once: the trace ends with this invocation, with
  no \<open>sleep\<close> and no further invocation after it. When this happens on the first
  invocation (\<open>k = 0\<close>), the operation has been invoked exactly once.
\<close>

theorem retry_propagates_other_failure_at_once:
  assumes "kw_get kwargs ''retry_timeout'' timeout = PNum t"
      and "retried env f args (passed_kwargs kwargs) (kw_get kwargs ''prep'' PNone)
                (kw_get kwargs ''retry_interval'' interval) (env_time env w + t) k w wk evs"
      and "run_prep (kw_get kwargs ''prep'' PNone) wk = (Inr (), wp, pevs)"
      and "f args (passed_kwargs kwargs) wp = (Inl e, w')"
      and "\<not> except_matches e element_exceptions"
      and "k < fuel"
  shows "retry fuel env f timeout interval args kwargs w =
           (Some (Inl e), w', evs @ pevs @ [EvCall args (passed_kwargs kwargs)]) \<and>
         count_calls (evs @ pevs @ [EvCall args (passed_kwargs kwargs)]) = Suc (count_calls evs) \<and>
         (k = 0 \<longrightarrow> evs = [] \<and> count_calls (pevs @ [EvCall args (passed_kwargs kwargs)]) = 1)"
proof -
  have "retry fuel env f timeout interval args kwargs w =
           (Some (Inl e), w', evs @ pevs @ [EvCall args (passed_kwargs kwargs)])"
    by (rule retry_pass_raises[where f = f and args = args, OF assms])
  moreover have c: "count_calls (evs @ pevs @ [EvCall args (passed_kwargs kwargs)]) =
                    Suc (count_calls evs)"
    using run_prep_events[OF assms(3)] by (auto simp: count_calls_def)
  moreover have "k = 0 \<Longrightarrow> evs = []"
    using assms(2) by (auto elim: retried.cases)
  ultimately show ?thesis by (auto simp: count_calls_def)
qed

text \<open>
  A stub whose first invocation raises a failure of another class, and one that raises
  it on its third invocation, after two transient failures.
\<close>

theorem retry_propagates_other_failure_at_once_witness:
  "retry 1 stub_env (fatal_op 0) default_timeout default_interval [] no_kwargs 0 =
     (Some (Inl stub_fatal), 1, [EvCall [] no_kwargs]) \<and>
   count_calls [EvCall [] no_kwargs :: (nat, unit) event] = 1 \<and>
   retry 5 stub_env (fatal_op 2) default_timeout default_interval [] no_kwargs 0 =
     (Some (Inl stub_fatal), 3,
      [EvCall [] no_kwargs, EvSleep default_interval,
       EvCall [] no_kwargs, EvSleep default_interval,
       EvCall [] no_kwargs])"
proof -
  have h1: "kw_get no_kwargs ''retry_timeout'' default_timeout = PNum 30"
    by (simp add: kw_get_no_kwargs default_timeout_def)
  have h2: "retried stub_env (fatal_op 0) [] (passed_kwargs no_kwargs) (kw_get no_kwargs ''prep'' PNone)
              (kw_get no_kwargs ''retry_interval'' default_interval) (env_time stub_env 0 + 30) 0 0 0 []"
    by (rule retried_0)
  have h3: "run_prep (kw_get no_kwargs ''prep'' PNone) w = (Inr (), w, [])" for w :: nat
    by (simp add: kw_get_no_kwargs run_prep_def)
  have h4: "fatal_op 0 [] (passed_kwargs no_kwargs) 0 = (Inl stub_fatal, 1)"
    by (simp add: fatal_op_def)
  have h6: "(0::nat) < 1" by simp
  have g2: "retried stub_env (fatal_op 2) [] (passed_kwargs no_kwargs) (kw_get no_kwargs ''prep'' PNone)
              (kw_get no_kwargs ''retry_interval'' default_interval) (env_time stub_env 0 + 30) 2 0 2
              (concat (replicate 2 [EvCall [] no_kwargs, EvSleep default_interval]))"
    using fatal_retried[of 2 2 30 default_interval]
    by (simp add: passed_no_kwargs kw_get_no_kwargs stub_env_time)
  have g4: "fatal_op 2 [] (passed_kwargs no_kwargs) 2 = (Inl stub_fatal, 3)"
    by (simp add: fatal_op_def)
  have g6: "(2::nat) < 5" by simp
  show ?thesis
    using retry_propagates_other_failure_at_once[OF h1 h2 h3 h4 stub_fatal_no_match h6]
      retry_propagates_other_failure_at_once[OF h1 g2 h3 g4 stub_fatal_no_match g6]
    by (simp add: passed_no_kwargs eval_nat_numeral)
qed

section \<open>The set of transient failures\<close>

text \<open>
  Claim C4. A failure raised in the \<open>try\<close> body is treated as transient exactly when
  it is an instance of one of the five classes of the module-level tuple
  \<open>element_exceptions\<close>: \<open>InvalidElementStateException\<close> and
  \<open>ElementNotVisibleException\<close> (element present but not interactable),
  \<open>NoSuchElementException\<close> (element absent), the module's own
  \<open>ElementStillThereError\<close>, and \<open>ValueError\<close>. A failure outside the set ends the
  loop at once with that failure; one inside the set, before the deadline, is absorbed:
  the loop sleeps and goes on.
\<close>

theorem transient_failures_are_element_exceptions:
  assumes "try_body f args kwargs prep w = (Inl e, w1, evs)"
  shows "(except_matches e element_exceptions \<longleftrightarrow>
            isinstance_exc e InvalidElementStateException \<or>
            isinstance_exc e NoSuchElementException \<or>
            isinstance_exc e ElementNotVisibleException \<or>
            isinstance_exc e ElementStillThereError \<or>
            isinstance_exc e ValueError) \<and>
         (\<not> except_matches e element_exceptions \<longrightarrow>
            retry_loop (Suc n) env f args kwargs prep retry_interval end_time w tr =
              (Some (Inl e), w1, tr @ evs)) \<and>
         (except_matches e element_exceptions \<longrightarrow> env_time env w1 \<le> end_time \<longrightarrow>
            env_sleep env retry_interval w1 = (Inr (), w2) \<longrightarrow>
            retry_loop (Suc n) env f args kwargs prep retry_interval end_time w tr =
              retry_loop n env f args kwargs prep retry_interval end_time w2
                (tr @ evs @ [EvSleep retry_interval]))"
  using assms by (simp add: except_matches_def element_exceptions_def)

text \<open>One pass of the loop for a failure of each kind.\<close>

theorem transient_failures_are_element_exceptions_witness:
  "except_matches stub_transient element_exceptions \<and>
   retry_loop 1 stub_env (stub_op 1) [] no_kwargs PNone default_interval 30 0 [] =
     retry_loop 0 stub_env (stub_op 1) [] no_kwargs PNone default_interval 30 1
       [EvCall [] no_kwargs, EvSleep default_interval] \<and>
   \<not> except_matches stub_fatal element_exceptions \<and>
   retry_loop 1 stub_env (fatal_op 0) [] no_kwargs PNone default_interval 30 0 [] =
     (Some (Inl stub_fatal), 1, [EvCall [] no_kwargs])"
proof -
  have t1: "try_body (stub_op 1) [] no_kwargs PNone 0 = (Inl stub_transient, 1, [EvCall [] no_kwargs])"
    by (simp add: try_body_def run_prep_def stub_op_def)
  have t2: "try_body (fatal_op 0) [] no_kwargs PNone 0 = (Inl stub_fatal, 1, [EvCall [] no_kwargs])"
    by (simp add: try_body_def run_prep_def fatal_op_def)
  have time: "env_time stub_env 1 \<le> 30"
    by (simp add: stub_env_time)
  have sleep: "env_sleep stub_env default_interval 1 = (Inr (), 1)"
    by (simp add: stub_env_sleep)
  show ?thesis
    using transient_failures_are_element_exceptions[OF t1, where n = 0 and env = stub_env
          and retry_interval = default_interval and end_time = 30 and tr = "[]" and ?w2.0 = 1]
      transient_failures_are_element_exceptions[OF t2, where n = 0 and env = stub_env
          and retry_interval = default_interval and end_time = 30 and tr = "[]" and ?w2.0 = 1]
      stub_transient_matches stub_fatal_no_match time sleep
    by simp
qed

section \<open>The preparation hook\<close>

text \<open>
  Claim C5, amended. In a decorated call that supplies a hook, every invocation of the
  wrapped operation comes directly after a run of the hook of its own, the first
  included, so the hook runs at least as often as the operation. If the hook returns
  normally every time it runs, then the hook and the operation alternate, the hook
  first, and over a call in which the operation is invoked \<open>N\<close> times the hook runs
  exactly \<open>N\<close> times. This holds of every prefix of the call (every fuel), finished or
  not.
\<close>

theorem hook_runs_first_in_each_attempt:
  assumes prep: "kw_get kwargs ''prep'' PNone = PFun h"
      and run: "retry fuel env f timeout interval args kwargs w = (res, w', tr)"
  shows "hook_precedes_calls tr \<and> count_calls tr \<le> count_preps tr \<and>
         ((\<forall>w. fst (h w) = Inr ()) \<longrightarrow>
            filter not_sleep tr =
              concat (replicate (count_calls tr) [EvPrep, EvCall args (passed_kwargs kwargs)]) \<and>
            count_preps tr = count_calls tr)"
proof -
  have hp: "hook_precedes_calls tr"
  proof (rule retry_trace_invariant[of hook_precedes_calls, OF _ run])
    show "hook_precedes_calls []" by (simp add: hook_precedes_calls_def)
  next
    fix w tr r w1 evs
    assume I: "hook_precedes_calls (tr :: ('a, 'b) event list)"
      and tb: "try_body f args (passed_kwargs kwargs) (kw_get kwargs ''prep'' PNone) w = (r, w1, evs)"
    from try_body_hook_events[OF tb[unfolded prep]]
    obtain ys where evs: "evs = EvPrep # ys" "calls_prepared True ys"
      "calls_prepared True (ys @ [EvSleep (kw_get kwargs ''retry_interval'' interval)])"
      by auto
    show "hook_precedes_calls (tr @ evs) \<and>
          hook_precedes_calls (tr @ evs @ [EvSleep (kw_get kwargs ''retry_interval'' interval)])"
      using calls_prepared_append[OF I[unfolded hook_precedes_calls_def] evs(2)]
        calls_prepared_append[OF I[unfolded hook_precedes_calls_def] evs(3)]
      by (simp add: hook_precedes_calls_def evs(1))
  qed
  have le: "count_calls tr \<le> count_preps tr"
    using calls_prepared_counts[OF hp[unfolded hook_precedes_calls_def]] by simp
  have eq: "filter not_sleep tr =
              concat (replicate (count_calls tr) [EvPrep, EvCall args (passed_kwargs kwargs)])"
    if ok: "\<forall>w. fst (h w) = Inr ()"
  proof (rule retry_trace_invariant[of "\<lambda>tr. filter not_sleep tr =
              concat (replicate (count_calls tr) [EvPrep, EvCall args (passed_kwargs kwargs)])", OF _ run])
    show "filter not_sleep [] =
        concat (replicate (count_calls []) [EvPrep, EvCall args (passed_kwargs kwargs)])"
      by (simp add: count_calls_def)
  next
    fix w tr r w1 evs
    assume I: "filter not_sleep (tr :: ('a, 'b) event list) =
              concat (replicate (count_calls tr) [EvPrep, EvCall args (passed_kwargs kwargs)])"
      and tb: "try_body f args (passed_kwargs kwargs) (kw_get kwargs ''prep'' PNone) w = (r, w1, evs)"
    from try_body_hook_events[OF tb[unfolded prep]] ok
    have evs: "evs = [EvPrep, EvCall args (passed_kwargs kwargs)]"
      by auto
    have a1: "filter not_sleep (tr @ evs) =
        concat (replicate (count_calls (tr @ evs)) [EvPrep, EvCall args (passed_kwargs kwargs)])"
      unfolding evs by (rule paired_attempt[OF I])
    then have "filter not_sleep ((tr @ evs) @ [EvSleep (kw_get kwargs ''retry_interval'' interval)]) =
        concat (replicate (count_calls ((tr @ evs) @ [EvSleep (kw_get kwargs ''retry_interval'' interval)]))
           [EvPrep, EvCall args (passed_kwargs kwargs)])"
      by (simp add: count_calls_def not_sleep_def)
    with a1 show "filter not_sleep (tr @ evs) =
        concat (replicate (count_calls (tr @ evs)) [EvPrep, EvCall args (passed_kwargs kwargs)]) \<and>
       filter not_sleep (tr @ evs @ [EvSleep (kw_get kwargs ''retry_interval'' interval)]) =
        concat (replicate (count_calls (tr @ evs @ [EvSleep (kw_get kwargs ''retry_interval'' interval)]))
           [EvPrep, EvCall args (passed_kwargs kwargs)])"
      by simp
  qed
  show ?thesis using hp le eq paired_counts by blast
qed


text \<open>A hook that always returns, around the stub that fails once.\<close>

theorem hook_runs_first_in_each_attempt_witness:
  "retry 5 stub_env (stub_op 1) default_timeout default_interval [] ok_hook_kwargs 0 =
     (Some (Inr 42), 2,
      [EvPrep, EvCall [] no_kwargs, EvSleep default_interval, EvPrep, EvCall [] no_kwargs]) \<and>
   hook_precedes_calls
      [EvPrep, EvCall [] no_kwargs, EvSleep default_interval, EvPrep, EvCall [] no_kwargs] \<and>
   filter not_sleep
      [EvPrep, EvCall [] no_kwargs, EvSleep default_interval, EvPrep, EvCall [] no_kwargs] =
      [EvPrep, EvCall [] no_kwargs, EvPrep, EvCall [] no_kwargs] \<and>
   count_preps
      [EvPrep, EvCall [] no_kwargs, EvSleep default_interval, EvPrep, EvCall [] no_kwargs] = 2 \<and>
   count_calls
      [EvPrep, EvCall [] no_kwargs, EvSleep default_interval, EvPrep, EvCall [] no_kwargs] = 2"
proof -
  have h1: "kw_get ok_hook_kwargs ''prep'' PNone = PFun ok_hook"
    by (rule kw_get_ok_hook_kwargs)
  have run: "retry 5 stub_env (stub_op 1) default_timeout default_interval [] ok_hook_kwargs 0 =
     (Some (Inr 42), 2,
      [EvPrep, EvCall [] no_kwargs, EvSleep default_interval, EvPrep, EvCall [] no_kwargs])"
    by (simp add: retry_def wrapper_unfold kw_get_ok_hook_kwargs passed_ok_hook_kwargs
        default_timeout_def py_add_def eval_nat_numeral try_body_def run_prep_def ok_hook_def
        stub_op_def stub_env_time stub_env_sleep stub_transient_matches)
  have ok: "\<forall>w. fst (ok_hook w) = Inr ()"
    by (simp add: ok_hook_def)
  have c: "count_calls
      [EvPrep, EvCall [] no_kwargs, EvSleep default_interval, EvPrep, EvCall [] no_kwargs :: (nat, unit) event] = 2"
    by (simp add: count_calls_def)
  show ?thesis
    using hook_runs_first_in_each_attempt[OF h1 run] ok run c
    by (simp add: passed_ok_hook_kwargs eval_nat_numeral)
qed

text \<open>
  A hook that raises a \<open>ValueError\<close> on its first run: the failure is caught like one
  of the operation, the loop sleeps and runs the hook again. The operation is invoked
  once and the hook runs twice.
\<close>

theorem hook_that_raises_runs_more_often:
  "retry 5 stub_env (stub_op 0) default_timeout default_interval [] hook_kwargs 0 =
     (Some (Inr 42), 3,
      [EvPrep, EvSleep default_interval, EvPrep, EvCall [] no_kwargs]) \<and>
   count_calls [EvPrep, EvSleep default_interval, EvPrep, EvCall [] no_kwargs] = 1 \<and>
   count_preps [EvPrep, EvSleep default_interval, EvPrep, EvCall [] no_kwargs] = 2"
  by (simp add: retry_def wrapper_unfold kw_get_hook_kwargs passed_hook_kwargs
        default_timeout_def py_add_def eval_nat_numeral try_body_def run_prep_def stub_hook_def
        stub_op_def stub_env_time stub_env_sleep ValueError_matches count_calls_def count_preps_def)

section \<open>Overrides of the timeout and of the interval\<close>

text \<open>
  Claim C6. A \<open>retry_timeout\<close> or \<open>retry_interval\<close> given in the keyword arguments of a
  call takes precedence over the decorator's default: the call behaves as the same call
  without that keyword argument to a function decorated with the given value. A later
  call without these keyword arguments, in whatever world an earlier call has left,
  computes its deadline from the decorator's \<open>timeout\<close> and sleeps for the decorator's
  \<open>interval\<close>: the defaults are arguments of the decorated function that no call changes.
\<close>

theorem overrides_take_precedence_for_one_call:
  shows "(kwargs ''retry_timeout'' = Some t' \<longrightarrow>
            retry fuel env f timeout interval args kwargs w =
            retry fuel env f t' interval args (kwargs(''retry_timeout'' := None)) w) \<and>
         (kwargs ''retry_interval'' = Some i' \<longrightarrow>
            retry fuel env f timeout interval args kwargs w =
            retry fuel env f timeout i' args (kwargs(''retry_interval'' := None)) w) \<and>
         (retry fuel env f timeout interval args kwargs w = (res, w1, tr) \<longrightarrow>
          kwargs2 ''retry_timeout'' = None \<longrightarrow> kwargs2 ''retry_interval'' = None \<longrightarrow>
            retry fuel2 env f timeout interval args2 kwargs2 w1 =
              (case py_add (env_time env w1) timeout of
                 Inl e \<Rightarrow> (Some (Inl e), w1, [])
               | Inr end_time \<Rightarrow>
                   retry_loop fuel2 env f args2 (passed_kwargs kwargs2) (kw_get kwargs2 ''prep'' PNone)
                     interval end_time w1 []))"
proof -
  have a: "retry fuel env f timeout interval args kwargs w =
            retry fuel env f t' interval args (kwargs(''retry_timeout'' := None)) w"
    if "kwargs ''retry_timeout'' = Some t'"
  proof -
    from that have "kw_get kwargs ''retry_timeout'' timeout = t'"
      by (simp add: kw_get_def)
    then show ?thesis
      by (simp add: retry_def wrapper_unfold kw_get_upd_same kw_get_upd_other passed_kwargs_upd
          reserved_def cong: sum.case_cong)
  qed
  have b: "retry fuel env f timeout interval args kwargs w =
            retry fuel env f timeout i' args (kwargs(''retry_interval'' := None)) w"
    if "kwargs ''retry_interval'' = Some i'"
  proof -
    from that have "kw_get kwargs ''retry_interval'' interval = i'"
      by (simp add: kw_get_def)
    then show ?thesis
      by (simp add: retry_def wrapper_unfold kw_get_upd_same kw_get_upd_other passed_kwargs_upd
          reserved_def cong: sum.case_cong)
  qed
  have c: "retry fuel2 env f timeout interval args2 kwargs2 w1 =
              (case py_add (env_time env w1) timeout of
                 Inl e \<Rightarrow> (Some (Inl e), w1, [])
               | Inr end_time \<Rightarrow>
                   retry_loop fuel2 env f args2 (passed_kwargs kwargs2) (kw_get kwargs2 ''prep'' PNone)
                     interval end_time w1 [])"
    if "kwargs2 ''retry_timeout'' = None" "kwargs2 ''retry_interval'' = None"
  proof -
    from that have "kw_get kwargs2 ''retry_timeout'' timeout = timeout"
      "kw_get kwargs2 ''retry_interval'' interval = interval"
      by (simp_all add: kw_get_def)
    then show ?thesis
      by (simp add: retry_def wrapper_unfold cong: sum.case_cong)
  qed
  show ?thesis using a b c by blast
qed

text \<open>
  A call with a timeout of one second and an interval of two gives up after two
  invocations, having slept for the interval given; without the timeout override, the
  interval is still the one given, and without the interval override, the timeout. The
  next call, without overrides, has the default 30 seconds and reaches the success,
  sleeping for the default interval.
\<close>

theorem overrides_take_precedence_for_one_call_witness:
  "retry 10 stub_env (stub_op 3) default_timeout default_interval [] override_kwargs 0 =
     (Some (Inl stub_transient), 2,
      [EvCall [] no_kwargs, EvSleep (PNum 2), EvCall [] no_kwargs]) \<and>
   retry 10 stub_env (stub_op 3) (PNum 1) default_interval []
       (override_kwargs(''retry_timeout'' := None)) 0 =
     (Some (Inl stub_transient), 2,
      [EvCall [] no_kwargs, EvSleep (PNum 2), EvCall [] no_kwargs]) \<and>
   retry 10 stub_env (stub_op 3) default_timeout (PNum 2) []
       (override_kwargs(''retry_interval'' := None)) 0 =
     (Some (Inl stub_transient), 2,
      [EvCall [] no_kwargs, EvSleep (PNum 2), EvCall [] no_kwargs]) \<and>
   retry 10 stub_env (stub_op 3) default_timeout default_interval [] no_kwargs 2 =
     (Some (Inr 42), 4,
      [EvCall [] no_kwargs, EvSleep default_interval, EvCall [] no_kwargs])"
proof -
  have h1: "override_kwargs ''retry_timeout'' = Some (PNum 1)"
    "override_kwargs ''retry_interval'' = Some (PNum 2)"
    by (simp_all add: override_kwargs_def)
  have h2: "no_kwargs ''retry_timeout'' = None" "no_kwargs ''retry_interval'' = None"
    by (simp_all add: no_kwargs_def)
  note inst = overrides_take_precedence_for_one_call[where kwargs = override_kwargs
      and t' = "PNum 1" and i' = "PNum 2" and fuel = 10 and env = stub_env and f = "stub_op 3"
      and timeout = default_timeout and interval = default_interval and args = "[]" and w = 0
      and res = "Some (Inl stub_transient)" and ?w1.0 = 2
      and tr = "[EvCall [] no_kwargs, EvSleep (PNum 2), EvCall [] no_kwargs]"
      and ?kwargs2.0 = no_kwargs and ?fuel2.0 = 10 and ?args2.0 = "[]"]
  have run1: "retry 10 stub_env (stub_op 3) default_timeout default_interval [] override_kwargs 0 =
     (Some (Inl stub_transient), 2,
      [EvCall [] no_kwargs, EvSleep (PNum 2), EvCall [] no_kwargs])"
    by (simp add: retry_def wrapper_unfold kw_get_override_kwargs passed_override_kwargs
        py_add_def eval_nat_numeral try_body_def run_prep_def stub_op_def stub_env_time
        stub_env_sleep stub_transient_matches)
  have run2: "retry 10 stub_env (stub_op 3) default_timeout default_interval [] no_kwargs 2 =
     (Some (Inr 42), 4,
      [EvCall [] no_kwargs, EvSleep default_interval, EvCall [] no_kwargs])"
    using inst run1 h2
    by (simp add: default_timeout_def kw_get_no_kwargs passed_no_kwargs
        py_add_def eval_nat_numeral try_body_def run_prep_def stub_op_def stub_env_time
        stub_env_sleep stub_transient_matches)
  note e1 = inst[THEN conjunct1, rule_format, OF h1(1)]
  note e2 = inst[THEN conjunct2, THEN conjunct1, rule_format, OF h1(2)]
  show ?thesis
    unfolding e1[symmetric] e2[symmetric] using run1 run2 by simp
qed

section \<open>The arguments the operation receives\<close>

text \<open>
  Claim C9. Every invocation of the wrapped operation in a decorated call receives the
  positional arguments of the call and its keyword arguments without the three reserved
  keys \<open>retry_timeout\<close>, \<open>retry_interval\<close> and \<open>prep\<close>; every other keyword argument is
  passed as it is. The call depends on the operation only through what it does on these
  arguments. This holds of every prefix of the call (every fuel).
\<close>

theorem reserved_kwargs_are_not_passed:
  assumes run: "retry fuel env f timeout interval args kwargs w = (res, w', tr)"
  shows "(\<forall>ev \<in> set tr. is_call ev \<longrightarrow> ev = EvCall args (passed_kwargs kwargs)) \<and>
         passed_kwargs kwargs ''retry_timeout'' = None \<and>
         passed_kwargs kwargs ''retry_interval'' = None \<and>
         passed_kwargs kwargs ''prep'' = None \<and>
         (\<forall>key. key \<noteq> ''retry_timeout'' \<longrightarrow> key \<noteq> ''retry_interval'' \<longrightarrow> key \<noteq> ''prep'' \<longrightarrow>
            passed_kwargs kwargs key = kwargs key) \<and>
         ((\<forall>w. g args (passed_kwargs kwargs) w = f args (passed_kwargs kwargs) w) \<longrightarrow>
            retry fuel env g timeout interval args kwargs w = (res, w', tr))"
proof -
  have calls: "\<forall>ev \<in> set tr. is_call ev \<longrightarrow> ev = EvCall args (passed_kwargs kwargs)"
  proof (rule retry_trace_invariant[of "\<lambda>tr. \<forall>ev \<in> set tr. is_call ev \<longrightarrow> ev = EvCall args (passed_kwargs kwargs)", OF _ run])
    show "\<forall>ev\<in>set []. is_call ev \<longrightarrow> ev = EvCall args (passed_kwargs kwargs)" by simp
  next
    fix w tr r w1 evs
    assume I: "\<forall>ev\<in>set tr. is_call ev \<longrightarrow> ev = EvCall args (passed_kwargs kwargs)"
      and tb: "try_body f args (passed_kwargs kwargs) (kw_get kwargs ''prep'' PNone) w = (r, w1, evs)"
    from try_body_call_events[OF tb] I
    show "(\<forall>ev\<in>set (tr @ evs). is_call ev \<longrightarrow> ev = EvCall args (passed_kwargs kwargs)) \<and>
          (\<forall>ev\<in>set (tr @ evs @ [EvSleep (kw_get kwargs ''retry_interval'' interval)]).
             is_call ev \<longrightarrow> ev = EvCall args (passed_kwargs kwargs))"
      by auto
  qed
  have same: "retry fuel env g timeout interval args kwargs w = (res, w', tr)"
    if "\<forall>w. g args (passed_kwargs kwargs) w = f args (passed_kwargs kwargs) w"
  proof -
    from that have "\<And>w. g args (passed_kwargs kwargs) w = f args (passed_kwargs kwargs) w"
      by simp
    from retry_loop_cong[of g args "passed_kwargs kwargs" f, OF this]
    have "retry fuel env g timeout interval args kwargs w =
          retry fuel env f timeout interval args kwargs w"
      by (simp add: retry_def wrapper_unfold split: sum.splits)
    with run show ?thesis by simp
  qed
  show ?thesis
    using calls same by (simp add: passed_kwargs_def reserved_def)
qed


text \<open>A call with the three reserved keyword arguments and one more.\<close>

theorem reserved_kwargs_are_not_passed_witness:
  "retry 5 stub_env (stub_op 1) default_timeout default_interval [PNum 7] full_kwargs 0 =
     (Some (Inr 42), 2,
      [EvPrep, EvCall [PNum 7] hover_kwargs, EvSleep (PNum 2), EvPrep, EvCall [PNum 7] hover_kwargs]) \<and>
   filter is_call
      [EvPrep, EvCall [PNum 7] hover_kwargs, EvSleep (PNum 2), EvPrep, EvCall [PNum 7] hover_kwargs] =
      [EvCall [PNum 7] hover_kwargs, EvCall [PNum 7] hover_kwargs] \<and>
   hover_kwargs ''retry_timeout'' = None \<and>
   hover_kwargs ''retry_interval'' = None \<and>
   hover_kwargs ''prep'' = None \<and>
   hover_kwargs ''hover_time'' = full_kwargs ''hover_time'' \<and>
   full_kwargs ''hover_time'' = Some (PNum 3)"
proof -
  have run: "retry 5 stub_env (stub_op 1) default_timeout default_interval [PNum 7] full_kwargs 0 =
     (Some (Inr 42), 2,
      [EvPrep, EvCall [PNum 7] hover_kwargs, EvSleep (PNum 2), EvPrep, EvCall [PNum 7] hover_kwargs])"
    by (simp add: retry_def wrapper_unfold kw_get_full_kwargs passed_full_kwargs
        py_add_def eval_nat_numeral try_body_def run_prep_def ok_hook_def
        stub_op_def stub_env_time stub_env_sleep stub_transient_matches)
  have "full_kwargs ''hover_time'' = Some (PNum 3)"
    by (simp add: full_kwargs_def)
  then show ?thesis
    using reserved_kwargs_are_not_passed[OF run, of "stub_op 1"] run
    by (simp add: passed_full_kwargs)
qed


section \<open>The wrapper errors\<close>

text \<open>
  Claim C7. \<open>WaitFailedError\<close> and \<open>DontRetryError\<close> each carry a message, which
  begins with the message given and names the cause, and the causing exception itself.
  Neither is an instance of a class of \<open>element_exceptions\<close>, so when the wrapped
  operation raises one of them, in whatever pass \<open>k + 1\<close> the loop has come to, the
  decorated call raises it at once: the trace ends with that invocation, with no
  \<open>sleep\<close> and no further invocation.
\<close>

theorem wrapper_errors_carry_cause_and_are_not_retried:
  shows "exc_msg (WaitFailedError_new env message cause) =
           message @ '', caused by '' @ env_repr_exc env cause \<and>
         exc_cause (WaitFailedError_new env message cause) = Some cause \<and>
         exc_msg (DontRetryError_new env message cause) =
           message @ '', caused by '' @ env_repr_exc env cause \<and>
         exc_cause (DontRetryError_new env message cause) = Some cause \<and>
         \<not> except_matches (WaitFailedError_new env message cause) element_exceptions \<and>
         \<not> except_matches (DontRetryError_new env message cause) element_exceptions \<and>
         (kw_get kwargs ''retry_timeout'' timeout = PNum t \<longrightarrow>
          retried env f args (passed_kwargs kwargs) (kw_get kwargs ''prep'' PNone)
            (kw_get kwargs ''retry_interval'' interval) (env_time env w + t) k w wk evs \<longrightarrow>
          run_prep (kw_get kwargs ''prep'' PNone) wk = (Inr (), wp, pevs) \<longrightarrow>
          f args (passed_kwargs kwargs) wp = (Inl e, w') \<longrightarrow>
          e = WaitFailedError_new env message cause \<or> e = DontRetryError_new env message cause \<longrightarrow>
          k < fuel \<longrightarrow>
            retry fuel env f timeout interval args kwargs w =
              (Some (Inl e), w', evs @ pevs @ [EvCall args (passed_kwargs kwargs)]))"
proof -
  have fields: "exc_msg (WaitFailedError_new env message cause) =
           message @ '', caused by '' @ env_repr_exc env cause"
      "exc_cause (WaitFailedError_new env message cause) = Some cause"
      "exc_msg (DontRetryError_new env message cause) =
           message @ '', caused by '' @ env_repr_exc env cause"
      "exc_cause (DontRetryError_new env message cause) = Some cause"
    by (simp_all add: WaitFailedError_new_def DontRetryError_new_def)
  have through: "retry fuel env f timeout interval args kwargs w =
              (Some (Inl e), w', evs @ pevs @ [EvCall args (passed_kwargs kwargs)])"
    if "kw_get kwargs ''retry_timeout'' timeout = PNum t"
       "retried env f args (passed_kwargs kwargs) (kw_get kwargs ''prep'' PNone)
          (kw_get kwargs ''retry_interval'' interval) (env_time env w + t) k w wk evs"
       "run_prep (kw_get kwargs ''prep'' PNone) wk = (Inr (), wp, pevs)"
       "f args (passed_kwargs kwargs) wp = (Inl e, w')"
       "e = WaitFailedError_new env message cause \<or> e = DontRetryError_new env message cause"
       "k < fuel"
  proof -
    from that(5) have "\<not> except_matches e element_exceptions"
      using wrapper_errors_not_transient[of env message cause] by auto
    from retry_pass_raises[where f = f and args = args, OF that(1-4) this that(6)]
    show ?thesis .
  qed
  show ?thesis
    using fields wrapper_errors_not_transient[of env message cause] through by blast
qed

text \<open>
  An operation that raises a transient failure and then a \<open>WaitFailedError\<close>, under
  the default decorator: the second invocation is the last.
\<close>

theorem wrapper_errors_carry_cause_and_are_not_retried_witness:
  "exc_msg (WaitFailedError_new stub_env ''Wait failed'' cause_exc) =
     ''Wait failed, caused by not visible'' \<and>
   exc_cause (WaitFailedError_new stub_env ''Wait failed'' cause_exc) = Some cause_exc \<and>
   retry 5 stub_env (wait_failed_op 1) default_timeout default_interval [] no_kwargs 0 =
     (Some (Inl (WaitFailedError_new stub_env ''Wait failed'' cause_exc)), 2,
      [EvCall [] no_kwargs, EvSleep default_interval, EvCall [] no_kwargs])"
proof -
  have h1: "kw_get no_kwargs ''retry_timeout'' default_timeout = PNum 30"
    by (simp add: kw_get_no_kwargs default_timeout_def)
  have h2: "retried stub_env (wait_failed_op 1) [] (passed_kwargs no_kwargs)
              (kw_get no_kwargs ''prep'' PNone) (kw_get no_kwargs ''retry_interval'' default_interval)
              (env_time stub_env 0 + 30) 1 0 1
              (concat (replicate 1 [EvCall [] no_kwargs, EvSleep default_interval]))"
    using wait_failed_retried[of 1 1 30 default_interval]
    by (simp add: passed_no_kwargs kw_get_no_kwargs stub_env_time)
  have h3: "run_prep (kw_get no_kwargs ''prep'' PNone) 1 = (Inr (), 1, [])"
    by (simp add: kw_get_no_kwargs run_prep_def)
  have h4: "wait_failed_op 1 [] (passed_kwargs no_kwargs) 1 =
              (Inl (WaitFailedError_new stub_env ''Wait failed'' cause_exc), 2)"
    by (simp add: wait_failed_op_def)
  have h5: "(1::nat) < 5" by simp
  have r: "env_repr_exc stub_env cause_exc = ''not visible''"
    by (simp add: stub_env_def cause_exc_def)
  note inst = wrapper_errors_carry_cause_and_are_not_retried[where env = stub_env
        and message = "''Wait failed''" and cause = cause_exc and kwargs = no_kwargs
        and timeout = default_timeout and t = 30 and w = 0 and k = 1 and wk = 1
        and evs = "concat (replicate 1 [EvCall [] no_kwargs, EvSleep default_interval])"
        and wp = 1 and pevs = "[]" and f = "wait_failed_op 1" and args = "[]"
        and e = "WaitFailedError_new stub_env ''Wait failed'' cause_exc" and w' = 2 and fuel = 5
        and interval = default_interval]
  show ?thesis
    using inst h1 h2 h3 h4 h5 r by (simp add: passed_no_kwargs)
qed

text \<open>
  \<open>Browser.click\<close> is where the two errors are raised: when the element was found,
  hovered on and clicked, and the wait that follows raises a failure that the decorator
  of \<open>click\<close> would retry, the body wraps it, as a \<open>WaitFailedError\<close> when
  \<open>cant_see_exceptions\<close> catches it and as a \<open>DontRetryError\<close> otherwise, and the
  decorated \<open>click\<close> raises the wrapped failure after this invocation: the click is
  not done again.
\<close>

theorem click_is_not_repeated_when_wait_fails:
  assumes "isinstance_val what T_basestring"
      and "kwargs ''retry_timeout'' = None" and "kwargs ''retry_interval'' = None"
      and "kwargs ''prep'' = None"
      and "kwargs ''by'' = Some (PClause c)"
      and "kwargs ''hover_time'' = None"
      and "kwargs ''wait_for'' = Some wait_for" and "isinstance_val wait_for T_basestring"
      and "kwargs ''wait_for_by'' = Some (PClause wc)"
      and "retried env (click_op env hover_on wait) [PBrowser, what] (passed_kwargs kwargs) PNone
             default_interval (env_time env w + 15) k w wk evs"
      and "ByClause_find env c what PBrowser wk = (Inr element, w1)"
      and "hover_on element (PNum (1 / 10)) w1 = (Inr (), w2)"
      and "env_element_click env element w2 = (Inr return_value, w3)"
      and "wait (PClause wc) wait_for w3 = (Inl e, w4)"
      and "except_matches e element_exceptions"
      and "k < fuel"
  shows "click fuel env hover_on wait [PBrowser, what] kwargs w =
           (Some (Inl (if except_matches e cant_see_exceptions
                       then WaitFailedError_new env ''Wait failed'' e
                       else DontRetryError_new env ''Wait failed'' e)), w4,
            evs @ [EvCall [PBrowser, what] (passed_kwargs kwargs)])"
proof -
  let ?err = "if except_matches e cant_see_exceptions
              then WaitFailedError_new env ''Wait failed'' e
              else DontRetryError_new env ''Wait failed'' e"
  have t: "kw_get kwargs ''retry_timeout'' (PNum 15) = PNum 15"
    using assms(2) by (simp add: kw_get_def)
  have i: "kw_get kwargs ''retry_interval'' default_interval = default_interval"
    using assms(3) by (simp add: kw_get_def)
  have h: "kw_get kwargs ''prep'' PNone = PNone"
    using assms(4) by (simp add: kw_get_def)
  have p: "run_prep (kw_get kwargs ''prep'' PNone) wk = (Inr (), wk, [])"
    unfolding h by (simp add: run_prep_def)
  have r: "retried env (click_op env hover_on wait) [PBrowser, what] (passed_kwargs kwargs)
             (kw_get kwargs ''prep'' PNone) (kw_get kwargs ''retry_interval'' default_interval)
             (env_time env w + 15) k w wk evs"
    unfolding h i by (rule assms(10))
  have k: "kw_get (passed_kwargs kwargs) ''by'' By_LINK_TEXT = PClause c"
      "kw_get (passed_kwargs kwargs) ''hover_time'' (PNum (1 / 10)) = PNum (1 / 10)"
      "kw_get (passed_kwargs kwargs) ''wait_for'' PNone = wait_for"
      "kw_get (passed_kwargs kwargs) ''wait_for_by'' By_ID = PClause wc"
    using assms(5,6,7,9) by (simp_all add: kw_get_passed reserved_def) (simp_all add: kw_get_def)
  have body: "click_op env hover_on wait [PBrowser, what] (passed_kwargs kwargs) wk = (Inl ?err, w4)"
    unfolding click_op_def k
    using click_body_wait_fails[where hover_on = hover_on and wait = wait
        and hover_time = "PNum (1 / 10)", OF assms(1) _ assms(8,11,12,13,14,15)] by simp
  have nt: "\<not> except_matches ?err element_exceptions"
    using wrapper_errors_not_transient[of env "''Wait failed''" e] by simp
  have "retry fuel env (click_op env hover_on wait) (PNum 15) default_interval
          [PBrowser, what] kwargs w =
        (Some (Inl ?err), w4, evs @ [] @ [EvCall [PBrowser, what] (passed_kwargs kwargs)])"
    by (rule retry_pass_raises[where f = "click_op env hover_on wait"
          and args = "[PBrowser, what]", OF t r p body nt assms(16)])
  then show ?thesis
    by (simp add: click_def rwrapper_def)
qed

section \<open>The locator registry and its negative strategies\<close>

text \<open>
  Claim C8, amended. An item assignment and an attribute assignment raise a
  \<open>ValueError\<close> for every string key that begins with \<open>NOT_\<close>, whatever the registry
  and the value, so a registry filled from the empty one by such assignments alone holds
  no such key. For every string key \<open>K\<close> of such a registry under which a locator
  strategy (a \<open>ByClause\<close>) is stored, the lookup of \<open>NOT_\<close> followed by \<open>K\<close> returns
  a negative strategy made by the lookup, with the by-type and the conversion function
  of the stored one.
\<close>

theorem negative_lookup_derives_from_stored_strategy:
  assumes "filled_by_assignment env d"
  shows "ByDict_setitem env d0 (PStr (negative_prefix @ s)) v =
           Inl (ValueError_new
                  (''Keys in this dict cannot start with '' @ [CHR 0x27] @ negative_prefix @ [CHR 0x27])) \<and>
         ByDict_setattr env d0 (negative_prefix @ s) v =
           Inl (ValueError_new
                  (''Keys in this dict cannot start with '' @ [CHR 0x27] @ negative_prefix @ [CHR 0x27])) \<and>
         d (PStr (negative_prefix @ K)) = None \<and>
         (d (PStr K) = Some (PClause c) \<longrightarrow>
            ByDict_getitem env d (PStr (negative_prefix @ K)) =
              Inr (PClause \<lparr>clause_negative = True, clause_by = clause_by c,
                           clause_convert = clause_convert c\<rparr>))"
proof -
  have store: "ByDict_setitem env d0 (PStr (negative_prefix @ s)) v =
           Inl (ValueError_new
                  (''Keys in this dict cannot start with '' @ [CHR 0x27] @ negative_prefix @ [CHR 0x27]))"
    by (simp add: ByDict_setitem_def startswith_prefix)
  then have assign: "ByDict_setattr env d0 (negative_prefix @ s) v =
           Inl (ValueError_new
                  (''Keys in this dict cannot start with '' @ [CHR 0x27] @ negative_prefix @ [CHR 0x27]))"
    by (simp add: ByDict_setattr_def)
  have absent: "d (PStr (negative_prefix @ K)) = None"
    by (rule filled_no_negative_key[OF assms startswith_prefix])
  have lookup: "ByDict_getitem env d (PStr (negative_prefix @ K)) =
              Inr (PClause \<lparr>clause_negative = True, clause_by = clause_by c,
                           clause_convert = clause_convert c\<rparr>)"
    if stored: "d (PStr K) = Some (PClause c)"
  proof -
    have "\<not> startswith K negative_prefix"
      using filled_no_negative_key[OF assms, of K] stored by auto
    then have "ByDict_getitem env d (PStr K) = Inr (PClause c)"
      using stored by (simp add: ByDict_getitem.simps[of env d "PStr K"] dict_getitem_def)
    then show ?thesis
      by (simp add: ByDict_getitem.simps[of env d "PStr (negative_prefix @ K)"] startswith_prefix
          NegativeByClause_init_clause)
  qed
  show ?thesis using store assign absent lookup by blast
qed

text \<open>
  A registry that holds \<open>None\<close> under \<open>None\<close> and \<open>By.ID\<close> under \<open>ID\<close>, filled by two
  item assignments.
\<close>

theorem negative_lookup_derives_from_stored_strategy_witness:
  "ByDict_setitem stub_env example_registry (PStr ''NOT_ID'') (PClause id_clause) =
     Inl (ValueError_new (''Keys in this dict cannot start with '' @ [CHR 0x27] @ ''NOT_'' @ [CHR 0x27])) \<and>
   ByDict_setattr stub_env example_registry ''NOT_ID'' (PClause id_clause) =
     Inl (ValueError_new (''Keys in this dict cannot start with '' @ [CHR 0x27] @ ''NOT_'' @ [CHR 0x27])) \<and>
   example_registry (PStr ''NOT_ID'') = None \<and>
   example_registry (PStr ''ID'') = Some (PClause id_clause) \<and>
   ByDict_getitem stub_env example_registry (PStr ''NOT_ID'') =
     Inr (PClause \<lparr>clause_negative = True, clause_by = ''id'', clause_convert = Inr\<rparr>)"
proof -
  have stored: "example_registry (PStr ''ID'') = Some (PClause id_clause)"
    by (simp add: example_registry_def)
  show ?thesis
    using negative_lookup_derives_from_stored_strategy[OF example_registry_built,
        of example_registry "''ID''" "PClause id_clause" "''ID''" id_clause] stored
    by (simp add: negative_prefix_def id_clause_def)
qed

text \<open>
  Two registries for which a lookup under the prefix raises. One holds the plain string
  \<open>id\<close> under \<open>ID\<close>, as the module's first registry does: the store is accepted, and
  the lookup of \<open>NOT_ID\<close> raises the \<open>ValueError\<close> of the contract of
  \<open>NegativeByClause\<close> instead of returning a strategy. The other is the registry into
  which \<open>update\<close>, \<open>setdefault\<close> or the constructor has stored a strategy under
  \<open>NOT_ID\<close>: none of them raises, the registry holds a key with the prefix, and the
  lookups of \<open>NOT_ID\<close> and of \<open>NOT_NOT_ID\<close> raise the \<open>KeyError\<close> for \<open>ID\<close>.
\<close>

theorem negative_lookup_of_plain_or_unchecked_entry_raises:
  "ByDict_setitem stub_env empty_registry (PStr ''ID'') (PStr ''id'') = Inr plain_registry \<and>
   plain_registry (PStr ''ID'') = Some (PStr ''id'') \<and>
   ByDict_getitem stub_env plain_registry (PStr ''NOT_ID'') =
     Inl (ValueError_new
            (''base_by_clause must be of types (ByClause), is of type <type '' @ [CHR 0x27] @
             ''str'' @ [CHR 0x27] @ ''>'')) \<and>
   snd (dict_setdefault empty_registry (PStr ''NOT_ID'') (PClause id_clause)) = unchecked_registry \<and>
   ByDict_new [(PStr ''NOT_ID'', PClause id_clause)] = unchecked_registry \<and>
   unchecked_registry (PStr ''NOT_ID'') = Some (PClause id_clause) \<and>
   startswith ''NOT_ID'' negative_prefix \<and>
   ByDict_getitem stub_env unchecked_registry (PStr ''NOT_ID'') =
     Inl (KeyError_new ([CHR 0x27] @ ''ID'' @ [CHR 0x27])) \<and>
   ByDict_getitem stub_env unchecked_registry (PStr ''NOT_NOT_ID'') =
     Inl (KeyError_new ([CHR 0x27] @ ''ID'' @ [CHR 0x27]))"
proof -
  have stored: "plain_registry (PStr ''ID'') = Some (PStr ''id'')"
    by (simp add: plain_registry_def)
  have a: "ByDict_getitem stub_env plain_registry (PStr ''ID'') = Inr (PStr ''id'')"
    by (simp add: ByDict_getitem.simps[of stub_env plain_registry "PStr ''ID''"] startswith_def
        negative_prefix_def dict_getitem_def stored)
  have b: "ByDict_getitem stub_env plain_registry (PStr ''NOT_ID'') =
     Inl (ValueError_new
            (''base_by_clause must be of types (ByClause), is of type <type '' @ [CHR 0x27] @
             ''str'' @ [CHR 0x27] @ ''>''))"
    using a
    by (simp add: ByDict_getitem.simps[of stub_env plain_registry "PStr ''NOT_ID''"] startswith_def
        negative_prefix_def NegativeByClause_init_def must_be_def stub_env_type_str
        stub_type_str_def)
  have c: "ByDict_setitem stub_env empty_registry (PStr ''ID'') (PStr ''id'') = Inr plain_registry"
    by (simp add: ByDict_setitem_def startswith_def negative_prefix_def plain_registry_def)
  have u: "unchecked_registry = empty_registry(PStr ''NOT_ID'' \<mapsto> PClause id_clause)"
    by (simp add: unchecked_registry_def dict_update_def)
  have d: "snd (dict_setdefault empty_registry (PStr ''NOT_ID'') (PClause id_clause)) = unchecked_registry"
    by (simp add: u dict_setdefault_def empty_registry_def)
  have e: "ByDict_new [(PStr ''NOT_ID'', PClause id_clause)] = unchecked_registry"
    by (simp add: unchecked_registry_def ByDict_new_def empty_registry_def)
  have f: "unchecked_registry (PStr ''NOT_ID'') = Some (PClause id_clause)"
    by (simp add: u)
  have g: "unchecked_registry (PStr ''ID'') = None"
    by (simp add: u empty_registry_def)
  have h: "ByDict_getitem stub_env unchecked_registry (PStr ''ID'') =
             Inl (KeyError_new ([CHR 0x27] @ ''ID'' @ [CHR 0x27]))"
    by (simp add: ByDict_getitem.simps[of stub_env unchecked_registry "PStr ''ID''"] startswith_def
        negative_prefix_def dict_getitem_def g stub_env_repr_val stub_repr_val_def)
  have i: "ByDict_getitem stub_env unchecked_registry (PStr ''NOT_ID'') =
             Inl (KeyError_new ([CHR 0x27] @ ''ID'' @ [CHR 0x27]))"
    using h
    by (simp add: ByDict_getitem.simps[of stub_env unchecked_registry "PStr ''NOT_ID''"]
        startswith_def negative_prefix_def)
  have j: "ByDict_getitem stub_env unchecked_registry (PStr ''NOT_NOT_ID'') =
             Inl (KeyError_new ([CHR 0x27] @ ''ID'' @ [CHR 0x27]))"
    using i
    by (simp add: ByDict_getitem.simps[of stub_env unchecked_registry "PStr ''NOT_NOT_ID''"]
        startswith_def negative_prefix_def)
  have k: "startswith ''NOT_ID'' negative_prefix"
    by (simp add: startswith_def negative_prefix_def)
  show ?thesis
    using b c stored d e f i j k by simp
qed

section \<open>Waiting for an element to leave\<close>

text \<open>
  Claim C10. The body of \<open>NegativeByClause.wait\<close> calls \<open>find\<close> once its two contract
  checks have passed. It returns normally exactly when that call of \<open>find\<close> raises a
  failure that \<open>cant_see_exceptions\<close> catches: a \<open>NoSuchElementException\<close>, an
  \<open>ElementNotVisibleException\<close> or a \<open>ValueError\<close>. When \<open>find\<close> returns an element
  the body raises \<open>ElementStillThereError\<close>, which \<open>element_exceptions\<close> catches: the
  decorated \<open>wait\<close>, before its deadline of 5 seconds, sleeps and tries again.
\<close>

theorem negative_wait_returns_iff_find_cannot_see:
  shows "((\<exists>v w1. NegativeByClause_wait_body env self what browser w = (Inr v, w1)) \<longleftrightarrow>
            isinstance_val what T_basestring \<and> isinstance_val browser T_Remote \<and>
            (\<exists>e w1. ByClause_find env self what browser w = (Inl e, w1) \<and>
               (isinstance_exc e NoSuchElementException \<or>
                isinstance_exc e ElementNotVisibleException \<or>
                isinstance_exc e ValueError))) \<and>
         (isinstance_val what T_basestring \<longrightarrow> isinstance_val browser T_Remote \<longrightarrow>
          ByClause_find env self what browser w = (Inr element, w1) \<longrightarrow>
            NegativeByClause_wait_body env self what browser w = (Inl ElementStillThereError_new, w1) \<and>
            except_matches ElementStillThereError_new element_exceptions \<and>
            (env_time env w1 \<le> env_time env w + 5 \<longrightarrow>
             env_sleep env default_interval w1 = (Inr (), w2) \<longrightarrow>
               NegativeByClause_wait (Suc n) env [PClause self, what, browser] (\<lambda>key. None) w =
               retry_loop n env (NegativeByClause_wait_op env) [PClause self, what, browser]
                 (\<lambda>key. None) PNone default_interval (env_time env w + 5) w2
                 [EvCall [PClause self, what, browser] (\<lambda>key. None), EvSleep default_interval]))"
proof -
  have iff: "(\<exists>v w1. NegativeByClause_wait_body env self what browser w = (Inr v, w1)) \<longleftrightarrow>
            isinstance_val what T_basestring \<and> isinstance_val browser T_Remote \<and>
            (\<exists>e w1. ByClause_find env self what browser w = (Inl e, w1) \<and>
               (isinstance_exc e NoSuchElementException \<or>
                isinstance_exc e ElementNotVisibleException \<or>
                isinstance_exc e ValueError))"
    unfolding cant_see_matches[symmetric]
    by (auto simp: NegativeByClause_wait_body_def must_be_def split: sum.splits prod.splits if_splits)
  have still: "NegativeByClause_wait_body env self what browser w = (Inl ElementStillThereError_new, w1)"
    if "isinstance_val what T_basestring" "isinstance_val browser T_Remote"
       "ByClause_find env self what browser w = (Inr element, w1)"
    using that by (simp add: NegativeByClause_wait_body_def must_be_def)
  have again: "NegativeByClause_wait (Suc n) env [PClause self, what, browser] (\<lambda>key. None) w =
               retry_loop n env (NegativeByClause_wait_op env) [PClause self, what, browser]
                 (\<lambda>key. None) PNone default_interval (env_time env w + 5) w2
                 [EvCall [PClause self, what, browser] (\<lambda>key. None), EvSleep default_interval]"
    if "isinstance_val what T_basestring" "isinstance_val browser T_Remote"
       "ByClause_find env self what browser w = (Inr element, w1)"
       "env_time env w1 \<le> env_time env w + 5"
       "env_sleep env default_interval w1 = (Inr (), w2)"
  proof -
    have op: "NegativeByClause_wait_op env [PClause self, what, browser] (\<lambda>key. None) w =
                (Inl ElementStillThereError_new, w1)"
      using still[OF that(1-3)] by (simp add: NegativeByClause_wait_op_def)
    show ?thesis
      using that(4,5) op
      by (simp add: NegativeByClause_wait_def rwrapper_def retry_def wrapper_unfold passed_empty
          kw_get_empty py_add_def try_body_def run_prep_def ElementStillThereError_matches)
  qed
  show ?thesis
    using iff still again ElementStillThereError_matches by blast
qed


text \<open>
  A driver that does not find the element, and one that finds it; the decorated \<open>wait\<close>
  with fuel for one pass has slept and is still running.
\<close>

theorem negative_wait_returns_iff_find_cannot_see_witness:
  "NegativeByClause_wait_body stub_env id_clause (PStr ''spinner'') PBrowser 0 = (Inr PNone, 0) \<and>
   ByClause_find stub_env id_clause (PStr ''spinner'') PBrowser 0 =
     (Inl (Exc [NoSuchElementException, WebDriverException, Exception, BaseException]
            (''no such element'' @ [CHR 0x0A] @ ''  (Element: [spinner], By: [id])'') None), 0) \<and>
   ByClause_find present_env id_clause (PStr ''spinner'') PBrowser 0 = (Inr (PObj ()), 0) \<and>
   NegativeByClause_wait_body present_env id_clause (PStr ''spinner'') PBrowser 0 =
     (Inl ElementStillThereError_new, 0) \<and>
   NegativeByClause_wait 1 present_env [PClause id_clause, PStr ''spinner'', PBrowser] no_kwargs 0 =
     (None, 0, [EvCall [PClause id_clause, PStr ''spinner'', PBrowser] no_kwargs,
                EvSleep default_interval])"
proof -
  have f1: "ByClause_find stub_env id_clause (PStr ''spinner'') PBrowser 0 =
     (Inl (Exc [NoSuchElementException, WebDriverException, Exception, BaseException]
            (''no such element'' @ [CHR 0x0A] @ ''  (Element: [spinner], By: [id])'') None), 0)"
    by (simp add: ByClause_find_def must_be_def id_clause_def stub_env_def stub_transient_def
        isinstance_exc_def)
  have f2: "ByClause_find present_env id_clause (PStr ''spinner'') PBrowser 0 = (Inr (PObj ()), 0)"
    by (simp add: ByClause_find_def must_be_def id_clause_def present_env_def)
  have t: "env_time present_env 0 \<le> env_time present_env 0 + 5"
    by simp
  have sl: "env_sleep present_env default_interval 0 = (Inr (), 0)"
    by (simp add: present_env_def stub_env_def)
  have i: "isinstance_val (PStr ''spinner'') T_basestring" "isinstance_val PBrowser T_Remote"
    by simp_all
  have inst: "isinstance_exc (Exc [NoSuchElementException, WebDriverException, Exception, BaseException]
            (''no such element'' @ [CHR 0x0A] @ ''  (Element: [spinner], By: [id])'') None)
            NoSuchElementException"
    by (simp add: isinstance_exc_def)
  from negative_wait_returns_iff_find_cannot_see[of stub_env id_clause "PStr ''spinner''" PBrowser 0]
    f1 i inst
  have "\<exists>v w1. NegativeByClause_wait_body stub_env id_clause (PStr ''spinner'') PBrowser 0 = (Inr v, w1)"
    by blast
  then have a: "NegativeByClause_wait_body stub_env id_clause (PStr ''spinner'') PBrowser 0 = (Inr PNone, 0)"
    using f1 by (auto simp: NegativeByClause_wait_body_def split: sum.splits if_splits)
  from negative_wait_returns_iff_find_cannot_see[of present_env id_clause "PStr ''spinner''" PBrowser 0
      "PObj ()" 0 0 0] f2 i t sl
  have b: "NegativeByClause_wait_body present_env id_clause (PStr ''spinner'') PBrowser 0 =
           (Inl ElementStillThereError_new, 0)"
    and c: "NegativeByClause_wait (Suc 0) present_env [PClause id_clause, PStr ''spinner'', PBrowser]
              (\<lambda>key. None) 0 =
            retry_loop 0 present_env (NegativeByClause_wait_op present_env)
              [PClause id_clause, PStr ''spinner'', PBrowser] (\<lambda>key. None) PNone default_interval
              (env_time present_env 0 + 5) 0
              [EvCall [PClause id_clause, PStr ''spinner'', PBrowser] (\<lambda>key. None),
               EvSleep default_interval]"
    by blast+
  show ?thesis
    using a b c f1 f2 by (simp add: no_kwargs_def)
qed




end
